theory Spec2Isabelle
  imports Main
begin

section \<open>The queue-to-store ingestion handler (index.js)\<close>

text \<open>
  A shallow embedding of the latest version of \<^verbatim>\<open>index.js\<close>: the content parser
  \<^verbatim>\<open>parseJiraContent\<close>, the record builder \<^verbatim>\<open>createDynamoItem\<close>, the batch writer
  \<^verbatim>\<open>batchWriteToDynamoDB\<close>, the per-item writer \<^verbatim>\<open>fallbackIndividualWrite\<close> and
  \<^verbatim>\<open>exports.handler\<close>.

  Conventions of the embedding.
  \<^item> A JavaScript string is a \<^typ>\<open>string\<close>; a \<^typ>\<open>char\<close> stands for a UTF-16 code
    unit below 256 (the Latin-1 range), on which \<^verbatim>\<open>trim\<close> and \<^verbatim>\<open>toLowerCase\<close> are
    written out. Strings with code units from 256 on are outside the model.
  \<^item> A JavaScript object used as a dictionary is a map from property names to values;
    the order of its properties is not represented.
  \<^item> A \<^verbatim>\<open>throw\<close> (or a rejected promise that is awaited) is the \<open>Inl\<close> branch of a sum.
  \<^item> The store client, \<^verbatim>\<open>JSON.parse\<close> and the clock are parameters.
  \<^item> Calls of \<^verbatim>\<open>console.log\<close> and \<^verbatim>\<open>console.error\<close> are left out: they do not
    change any value the functions return.
\<close>

subsection \<open>Values and thrown values\<close>

text \<open>
  The values \<^verbatim>\<open>JSON.parse\<close> can return, and \<^verbatim>\<open>undefined\<close>. Numbers are restricted to
  the integers a double holds exactly and prints in full (magnitude at most \<open>2 ^ 53\<close>).
\<close>

datatype js_val =
    Undefined
  | Null
  | Bool bool
  | Num int
  | Str string
  | Arr "js_val list"
  | Obj "(string \<times> js_val) list"

text \<open>
  What a \<^verbatim>\<open>catch\<close> clause can receive: an Error object with its \<^verbatim>\<open>name\<close> and
  \<^verbatim>\<open>message\<close>, or one of the two values on which reading \<^verbatim>\<open>.message\<close> itself raises
  a TypeError. (JavaScript can throw any value; the other non-Error values only change
  the text that is recorded and are not represented.)
\<close>

datatype thrown =
    Error string string
  | ThrownNull
  | ThrownUndefined

definition TypeError :: "string \<Rightarrow> thrown" where
  "TypeError msg = Error ''TypeError'' msg"

definition SyntaxError :: "string \<Rightarrow> thrown" where
  "SyntaxError msg = Error ''SyntaxError'' msg"

text \<open>\<^verbatim>\<open>error.message\<close>, with the TypeError texts of V8.\<close>

fun error_message :: "thrown \<Rightarrow> thrown + string" where
  "error_message (Error nm msg) = Inr msg"
| "error_message ThrownNull =
     Inl (TypeError ''Cannot read properties of null (reading 'message')'')"
| "error_message ThrownUndefined =
     Inl (TypeError ''Cannot read properties of undefined (reading 'message')'')"

text \<open>\<^verbatim>\<open>Error.prototype.toString\<close>, used when an Error object is put into a template.\<close>

fun thrown_to_string :: "thrown \<Rightarrow> string" where
  "thrown_to_string (Error nm msg) =
     (if msg = [] then nm else if nm = [] then msg else nm @ '': '' @ msg)"
| "thrown_to_string ThrownNull = ''null''"
| "thrown_to_string ThrownUndefined = ''undefined''"

text \<open>
  \<^verbatim>\<open>value.name\<close> for the property names the handler reads (\<^verbatim>\<open>content\<close>, \<^verbatim>\<open>title\<close>):
  reading a property of \<^verbatim>\<open>null\<close> or \<^verbatim>\<open>undefined\<close> raises; a primitive or an array has
  no such property; an object yields its own property or \<^verbatim>\<open>undefined\<close>.
\<close>

fun get_property :: "js_val \<Rightarrow> string \<Rightarrow> thrown + js_val" where
  "get_property Undefined p =
     Inl (TypeError (''Cannot read properties of undefined (reading ''
                     @ [CHR 0x27] @ p @ [CHR 0x27] @ '')''))"
| "get_property Null p =
     Inl (TypeError (''Cannot read properties of null (reading ''
                     @ [CHR 0x27] @ p @ [CHR 0x27] @ '')''))"
| "get_property (Obj props) p =
     Inr (case map_of props p of None \<Rightarrow> Undefined | Some v \<Rightarrow> v)"
| "get_property v p = Inr Undefined"

subsection \<open>Numbers in templates\<close>

definition digit_char :: "nat \<Rightarrow> char" where
  "digit_char d = ''0123456789'' ! d"

text \<open>
  A non-negative integer in a template literal: its decimal digits, the most significant
  first.
\<close>

function nat_to_string :: "nat \<Rightarrow> string" where
  "nat_to_string n =
     (if n < 10 then [digit_char n]
      else nat_to_string (n div 10) @ [digit_char (n mod 10)])"
  by pat_completeness auto
termination
  by (relation "measure id") auto

declare nat_to_string.simps [simp del]

definition int_to_string :: "int \<Rightarrow> string" where
  "int_to_string i = (if 0 \<le> i then nat_to_string (nat i) else CHR ''-'' # nat_to_string (nat (- i)))"

definition is_digit :: "char \<Rightarrow> bool" where
  "is_digit c = (c \<in> set ''0123456789'')"

subsection \<open>String operations of the parser\<close>

text \<open>\<^verbatim>\<open>content.split('\n')\<close>: one more piece than there are line feeds.\<close>

fun cons_to_head :: "char \<Rightarrow> string list \<Rightarrow> string list" where
  "cons_to_head c [] = [[c]]"
| "cons_to_head c (l # ls) = (c # l) # ls"

fun split_lines :: "string \<Rightarrow> string list" where
  "split_lines [] = [[]]"
| "split_lines (c # cs) =
     (if c = CHR 0x0A then [] # split_lines cs else cons_to_head c (split_lines cs))"

text \<open>\<^verbatim>\<open>line.indexOf(c)\<close>: the first position of the character, or \<open>-1\<close>.\<close>

fun indexOf :: "string \<Rightarrow> char \<Rightarrow> int" where
  "indexOf [] c = - 1"
| "indexOf (x # xs) c =
     (if x = c then 0 else (let i = indexOf xs c in if i < 0 then - 1 else i + 1))"

text \<open>
  \<^verbatim>\<open>s.substring(start, end)\<close> and \<^verbatim>\<open>s.substring(start)\<close>: both indices are clamped to
  \<open>[0, length]\<close> and swapped when out of order.
\<close>

definition clamp_index :: "nat \<Rightarrow> int \<Rightarrow> nat" where
  "clamp_index len k = min (nat (max k 0)) len"

definition substring :: "string \<Rightarrow> int \<Rightarrow> int \<Rightarrow> string" where
  "substring s start finish =
     (let a = clamp_index (length s) start; b = clamp_index (length s) finish;
          lo = min a b; hi = max a b
      in take (hi - lo) (drop lo s))"

definition substring_from :: "string \<Rightarrow> int \<Rightarrow> string" where
  "substring_from s start = substring s start (int (length s))"

text \<open>
  \<^verbatim>\<open>trim\<close> removes white space and line terminators at both ends; below 256 these are
  the code units 9 to 13, 32 and 160.
\<close>

definition is_space :: "char \<Rightarrow> bool" where
  "is_space c = (let n = (of_char c :: nat) in (9 \<le> n \<and> n \<le> 13) \<or> n = 32 \<or> n = 160)"

definition trim :: "string \<Rightarrow> string" where
  "trim s = rev (dropWhile is_space (rev (dropWhile is_space s)))"

text \<open>
  \<^verbatim>\<open>toLowerCase\<close>: below 256 the letters with a lower-case form are A to Z and 192 to
  222 except 215; the lower-case form is 32 higher, which is bit 5 set.
\<close>

definition is_upper :: "char \<Rightarrow> bool" where
  "is_upper c =
     (let n = (of_char c :: nat) in (65 \<le> n \<and> n \<le> 90) \<or> (192 \<le> n \<and> n \<le> 222 \<and> n \<noteq> 215))"

definition char_lower :: "char \<Rightarrow> char" where
  "char_lower c =
     (if is_upper c
      then (case c of Char b0 b1 b2 b3 b4 b5 b6 b7 \<Rightarrow> Char b0 b1 b2 b3 b4 True b6 b7)
      else c)"

definition toLowerCase :: "string \<Rightarrow> string" where
  "toLowerCase s = map char_lower s"

subsection \<open>Content parser: parseJiraContent\<close>

type_synonym fields = "string \<rightharpoonup> string"

text \<open>
  \<^verbatim>\<open>fields[key] = value\<close> on a plain object: the name \<^verbatim>\<open>__proto__\<close> is the accessor of
  \<^verbatim>\<open>Object.prototype\<close>, whose setter ignores a string, so that no property is created.
\<close>

definition set_property :: "fields \<Rightarrow> string \<Rightarrow> string \<Rightarrow> fields" where
  "set_property fields k v = (if k = ''__proto__'' then fields else fields(k \<mapsto> v))"

text \<open>The body of the \<^verbatim>\<open>for\<close> loop over the lines.\<close>

definition parse_line :: "fields \<Rightarrow> string \<Rightarrow> fields" where
  "parse_line fields line =
     (let colonIndex = indexOf line CHR '':'' in
      if colonIndex > 0 then
        (let key = toLowerCase (trim (substring line 0 colonIndex));
             val = trim (substring_from line (colonIndex + 1))
         in if key = ''key'' then fields(''issueKey'' \<mapsto> val)
            else if key = ''summary'' then fields(''summary'' \<mapsto> val)
            else if key = ''priority'' then fields(''priority'' \<mapsto> val)
            else if key = ''creator'' then fields(''creator'' \<mapsto> val)
            else if key = ''status'' then fields(''status'' \<mapsto> val)
            else if key = ''assignee'' then fields(''assignee'' \<mapsto> val)
            else set_property fields key val)
      else fields)"

definition parse_content :: "string \<Rightarrow> fields" where
  "parse_content content = foldl parse_line Map.empty (split_lines content)"

text \<open>
  \<^verbatim>\<open>parseJiraContent(content)\<close>: \<^verbatim>\<open>content.split\<close> raises a TypeError when the content is
  not a string (no value of \<^verbatim>\<open>JSON.parse\<close> other than a string has a callable
  \<^verbatim>\<open>split\<close>).
\<close>

fun parseJiraContent :: "js_val \<Rightarrow> thrown + fields" where
  "parseJiraContent (Str content) = Inr (parse_content content)"
| "parseJiraContent Undefined =
     Inl (TypeError ''Cannot read properties of undefined (reading 'split')'')"
| "parseJiraContent Null =
     Inl (TypeError ''Cannot read properties of null (reading 'split')'')"
| "parseJiraContent v = Inl (TypeError ''content.split is not a function'')"

subsection \<open>Record builder: createDynamoItem\<close>

type_synonym item = "string \<rightharpoonup> js_val"

text \<open>\<^verbatim>\<open>parsedFields.name\<close>: the parsed string, or \<^verbatim>\<open>undefined\<close>.\<close>

definition field :: "fields \<Rightarrow> string \<Rightarrow> js_val" where
  "field parsedFields k = (case parsedFields k of None \<Rightarrow> Undefined | Some v \<Rightarrow> Str v)"

text \<open>The names the \<^verbatim>\<open>filter\<close> of the spread removes.\<close>

definition mapped_names :: "string list" where
  "mapped_names = [''issueKey'', ''summary'', ''priority'', ''creator'', ''status'', ''assignee'']"

text \<open>
  \<^verbatim>\<open>Object.fromEntries(Object.entries(parsedFields).filter(([key]) => !mapped.includes(key)))\<close>.
\<close>

definition additional_fields :: "fields \<Rightarrow> item" where
  "additional_fields parsedFields =
     (\<lambda>k. if k \<in> set mapped_names then None else map_option Str (parsedFields k))"

text \<open>
  \<^verbatim>\<open>createDynamoItem(message, parsedFields)\<close>. The two readings of the clock,
  \<^verbatim>\<open>new Date().toISOString()\<close> and \<^verbatim>\<open>Date.now()\<close> (milliseconds since the epoch), are the
  parameters \<open>now_iso\<close> and \<open>now_ms\<close>. The operator \<^verbatim>\<open>||\<close> takes its right operand when the
  left one is \<^verbatim>\<open>undefined\<close> or the empty string. The spread stands last in the object
  literal, so its properties replace earlier ones of the same name: \<open>m1 ++ m2\<close> prefers
  \<open>m2\<close>.
\<close>

definition createDynamoItem :: "string \<Rightarrow> nat \<Rightarrow> js_val \<Rightarrow> fields \<Rightarrow> thrown + item" where
  "createDynamoItem now_iso now_ms message parsedFields =
     (let currentTimestamp = Str now_iso;
          issueId = (case parsedFields ''issueKey'' of
                       None \<Rightarrow> ''unknown-'' @ nat_to_string now_ms
                     | Some k \<Rightarrow> if k = [] then ''unknown-'' @ nat_to_string now_ms else k)
      in case get_property message ''title'' of
           Inl e \<Rightarrow> Inl e
         | Inr title \<Rightarrow>
             (case get_property message ''content'' of
                Inl e \<Rightarrow> Inl e
              | Inr content \<Rightarrow>
                  Inr ([''issueId'' \<mapsto> Str issueId,
                        ''timestamp'' \<mapsto> currentTimestamp,
                        ''title'' \<mapsto> title,
                        ''summary'' \<mapsto> field parsedFields ''summary'',
                        ''priority'' \<mapsto> field parsedFields ''priority'',
                        ''creator'' \<mapsto> field parsedFields ''creator'',
                        ''status'' \<mapsto> field parsedFields ''status'',
                        ''assignee'' \<mapsto> field parsedFields ''assignee'',
                        ''content'' \<mapsto> content,
                        ''lastUpdated'' \<mapsto> currentTimestamp,
                        ''processedAt'' \<mapsto> currentTimestamp]
                       ++ additional_fields parsedFields)))"

subsection \<open>The store client and its effects\<close>

datatype 'i put_request = PutRequest 'i

text \<open>
  \<^verbatim>\<open>new BatchWriteCommand({RequestItems: {[table]: requests}})\<close> and
  \<^verbatim>\<open>new PutCommand({TableName: table, Item: item})\<close>; \<open>table\<close> is the value of
  \<^verbatim>\<open>process.env.DYNAMODB_TABLE\<close>.
\<close>

datatype 'i command =
    BatchWriteCommand string "'i put_request list"
  | PutCommand string 'i

record 'i command_output =
  UnprocessedItems :: "(string \<rightharpoonup> 'i put_request list) option"

text \<open>
  The client is any function of a store state: it resolves with a response or rejects
  with a thrown value, and moves the store to a next state.
\<close>

type_synonym ('s, 'i) client = "'s \<Rightarrow> 'i command \<Rightarrow> (thrown + 'i command_output) \<times> 's"

text \<open>
  What the functions do to the outside, in order: a command sent for the first time
  (\<open>Sent\<close>: the sends of lines 115 and 172), a command sent inside the retry loop
  (\<open>Resent\<close>: line 133), and a wait of \<^verbatim>\<open>setTimeout\<close> in milliseconds.
\<close>

datatype 'i effect =
    Sent "'i command"
  | Resent "'i command"
  | Waited nat

record ('s, 'i) world =
  store :: 's
  effects :: "'i effect list"

definition dynamoDB_send ::
  "('i command \<Rightarrow> 'i effect) \<Rightarrow> ('s, 'i) client \<Rightarrow> 'i command \<Rightarrow> ('s, 'i) world
     \<Rightarrow> (thrown + 'i command_output) \<times> ('s, 'i) world" where
  "dynamoDB_send tag client cmd w =
     (case client (store w) cmd of
        (r, s') \<Rightarrow> (r, \<lparr>store = s', effects = effects w @ [tag cmd]\<rparr>))"

definition setTimeout_wait :: "nat \<Rightarrow> ('s, 'i) world \<Rightarrow> ('s, 'i) world" where
  "setTimeout_wait ms w = w\<lparr>effects := effects w @ [Waited ms]\<rparr>"

text \<open>\<^verbatim>\<open>response.UnprocessedItems?.[table] || []\<close>.\<close>

definition unprocessed_of :: "string \<Rightarrow> 'i command_output \<Rightarrow> 'i put_request list" where
  "unprocessed_of table response =
     (case UnprocessedItems response of
        None \<Rightarrow> []
      | Some m \<Rightarrow> (case m table of None \<Rightarrow> [] | Some reqs \<Rightarrow> reqs))"

text \<open>
  \<^verbatim>\<open>xs.slice(start, end)\<close> and \<^verbatim>\<open>xs.slice(start)\<close>: a negative index counts from the end,
  and every index is clamped to \<open>[0, length]\<close>.
\<close>

definition slice_index :: "nat \<Rightarrow> int \<Rightarrow> nat" where
  "slice_index len r = (if r < 0 then nat (max (int len + r) 0) else min (nat r) len)"

definition slice :: "'a list \<Rightarrow> int \<Rightarrow> int \<Rightarrow> 'a list" where
  "slice xs start finish =
     (let k = slice_index (length xs) start; final = slice_index (length xs) finish
      in take (final - k) (drop k xs))"

definition slice_from :: "'a list \<Rightarrow> int \<Rightarrow> 'a list" where
  "slice_from xs start = slice xs start (int (length xs))"

subsection \<open>Batch writer: batchWriteToDynamoDB\<close>

definition MAX_BATCH_SIZE :: nat where
  "MAX_BATCH_SIZE = 25"

definition MAX_RETRIES :: nat where
  "MAX_RETRIES = 3"

record outcome =
  successful :: int
  failed :: int
  errors :: "string list"

text \<open>
  The \<^verbatim>\<open>while\<close> loop of lines 121 to 136. It returns the last list of unprocessed
  items, or the value a resend rejected with.
\<close>

function retry_loop ::
  "string \<Rightarrow> ('s, 'i) client \<Rightarrow> 'i put_request list \<Rightarrow> nat \<Rightarrow> ('s, 'i) world
     \<Rightarrow> (thrown + 'i put_request list) \<times> ('s, 'i) world" where
  "retry_loop table client unprocessedItems retryCount w =
     (if length unprocessedItems > 0 \<and> retryCount < MAX_RETRIES then
        (case dynamoDB_send Resent client (BatchWriteCommand table unprocessedItems)
                (setTimeout_wait (2 ^ retryCount * 100) w) of
           (Inl e, w') \<Rightarrow> (Inl e, w')
         | (Inr retryResponse, w') \<Rightarrow>
             retry_loop table client (unprocessed_of table retryResponse) (retryCount + 1) w')
      else (Inr unprocessedItems, w))"
  by pat_completeness auto
termination
  by (relation "measure (\<lambda>(table, client, unprocessedItems, retryCount, w). MAX_RETRIES - retryCount)")
     auto

declare retry_loop.simps [simp del]

text \<open>The body of the \<^verbatim>\<open>try\<close> block of one chunk (lines 109 to 145).\<close>

definition chunk_try ::
  "string \<Rightarrow> ('s, 'i) client \<Rightarrow> 'i list \<Rightarrow> outcome \<Rightarrow> ('s, 'i) world
     \<Rightarrow> (thrown + outcome) \<times> ('s, 'i) world" where
  "chunk_try table client chunk results w =
     (let putRequests = map PutRequest chunk in
      case dynamoDB_send Sent client (BatchWriteCommand table putRequests) w of
        (Inl e, w1) \<Rightarrow> (Inl e, w1)
      | (Inr response, w1) \<Rightarrow>
          (case retry_loop table client (unprocessed_of table response) 0 w1 of
             (Inl e, w2) \<Rightarrow> (Inl e, w2)
           | (Inr unprocessedItems, w2) \<Rightarrow>
               (let processedCount = int (length chunk) - int (length unprocessedItems);
                    results1 = results\<lparr>successful := successful results + processedCount,
                                       failed := failed results + int (length unprocessedItems)\<rparr>
                in (Inr (if length unprocessedItems > 0
                         then results1\<lparr>errors := errors results1 @
                                [nat_to_string (length unprocessedItems) @ '' items failed after retries'']\<rparr>
                         else results1), w2))))"

text \<open>
  The \<^verbatim>\<open>catch\<close> block of one chunk (lines 147 to 151); reading \<^verbatim>\<open>error.message\<close> can
  itself raise.
\<close>

definition chunk_catch :: "'i list \<Rightarrow> outcome \<Rightarrow> thrown \<Rightarrow> thrown + outcome" where
  "chunk_catch chunk results error =
     (case error_message error of
        Inl e \<Rightarrow> Inl e
      | Inr msg \<Rightarrow> Inr (results\<lparr>failed := failed results + int (length chunk),
                               errors := errors results @ [msg]\<rparr>))"

definition write_chunk ::
  "string \<Rightarrow> ('s, 'i) client \<Rightarrow> 'i list \<Rightarrow> outcome \<Rightarrow> ('s, 'i) world
     \<Rightarrow> (thrown + outcome) \<times> ('s, 'i) world" where
  "write_chunk table client chunk results w =
     (case chunk_try table client chunk results w of
        (Inr results', w') \<Rightarrow> (Inr results', w')
      | (Inl error, w') \<Rightarrow> (chunk_catch chunk results error, w'))"

text \<open>The \<^verbatim>\<open>for\<close> loop over the chunk offsets \<open>i\<close> (lines 101 to 152).\<close>

function batch_loop ::
  "string \<Rightarrow> ('s, 'i) client \<Rightarrow> 'i list \<Rightarrow> nat \<Rightarrow> outcome \<Rightarrow> ('s, 'i) world
     \<Rightarrow> (thrown + outcome) \<times> ('s, 'i) world" where
  "batch_loop table client items i results w =
     (if i < length items then
        (let chunk = slice items (int i) (int (i + MAX_BATCH_SIZE)) in
         case write_chunk table client chunk results w of
           (Inl e, w') \<Rightarrow> (Inl e, w')
         | (Inr results', w') \<Rightarrow> batch_loop table client items (i + MAX_BATCH_SIZE) results' w')
      else (Inr results, w))"
  by pat_completeness auto
termination
  by (relation "measure (\<lambda>(table, client, items, i, results, w). length items - i)")
     (auto simp: MAX_BATCH_SIZE_def)

declare batch_loop.simps [simp del]

definition batchWriteToDynamoDB ::
  "string \<Rightarrow> ('s, 'i) client \<Rightarrow> 'i list \<Rightarrow> ('s, 'i) world
     \<Rightarrow> (thrown + outcome) \<times> ('s, 'i) world" where
  "batchWriteToDynamoDB table client items w =
     batch_loop table client items 0 \<lparr>successful = 0, failed = 0, errors = []\<rparr> w"

subsection \<open>Per-item writer: fallbackIndividualWrite\<close>

text \<open>A value inside a template literal: \<^verbatim>\<open>`${v}`\<close>.\<close>

fun join_comma :: "string list \<Rightarrow> string" where
  "join_comma [] = []"
| "join_comma [s] = s"
| "join_comma (s # t # ss) = s @ '','' @ join_comma (t # ss)"

fun js_to_string :: "js_val \<Rightarrow> string" where
  "js_to_string Undefined = ''undefined''"
| "js_to_string Null = ''null''"
| "js_to_string (Bool b) = (if b then ''true'' else ''false'')"
| "js_to_string (Num n) = int_to_string n"
| "js_to_string (Str s) = s"
| "js_to_string (Arr vs) =
     join_comma (map (\<lambda>v. if v = Undefined \<or> v = Null then [] else js_to_string v) vs)"
| "js_to_string (Obj props) = ''[object Object]''"

text \<open>\<^verbatim>\<open>item.issueId\<close>.\<close>

definition item_property :: "item \<Rightarrow> string \<Rightarrow> js_val" where
  "item_property item k = (case item k of None \<Rightarrow> Undefined | Some v \<Rightarrow> v)"

text \<open>
  The object an item's promise fulfils with, \<^verbatim>\<open>{success, issueId, error}\<close> (\<open>None\<close>: no
  \<^verbatim>\<open>error\<close> property), and the two results of \<^verbatim>\<open>Promise.allSettled\<close>.
\<close>

datatype write_result = WriteResult bool js_val "string option"

datatype settled =
    Fulfilled write_result
  | Rejected thrown

text \<open>
  The \<^verbatim>\<open>async\<close> function mapped over the items (lines 165 to 178). Each call sends its
  command before the next call starts; the answer of the client is taken at the send.
\<close>

definition write_item ::
  "string \<Rightarrow> ('s, item) client \<Rightarrow> item \<Rightarrow> ('s, item) world \<Rightarrow> settled \<times> ('s, item) world" where
  "write_item table client item w =
     (case dynamoDB_send Sent client (PutCommand table item) w of
        (Inr response, w') \<Rightarrow>
          (Fulfilled (WriteResult True (item_property item ''issueId'') None), w')
      | (Inl error, w') \<Rightarrow>
          (case error_message error of
             Inr msg \<Rightarrow>
               (Fulfilled (WriteResult False (item_property item ''issueId'') (Some msg)), w')
           | Inl e \<Rightarrow> (Rejected e, w')))"

fun write_items ::
  "string \<Rightarrow> ('s, item) client \<Rightarrow> item list \<Rightarrow> ('s, item) world
     \<Rightarrow> settled list \<times> ('s, item) world" where
  "write_items table client [] w = ([], w)"
| "write_items table client (item # items) w =
     (case write_item table client item w of
        (r, w') \<Rightarrow> (case write_items table client items w' of (rs, w'') \<Rightarrow> (r # rs, w'')))"

text \<open>The body of \<^verbatim>\<open>writeResults.forEach\<close> (lines 182 to 194).\<close>

fun tally :: "outcome \<Rightarrow> settled \<Rightarrow> outcome" where
  "tally results (Fulfilled (WriteResult success issueId error)) =
     (if success then results\<lparr>successful := successful results + 1\<rparr>
      else results\<lparr>failed := failed results + 1,
                    errors := errors results @
                      [js_to_string issueId @ '': '' @
                       (case error of None \<Rightarrow> ''undefined'' | Some msg \<Rightarrow> msg)]\<rparr>)"
| "tally results (Rejected reason) =
     results\<lparr>failed := failed results + 1,
              errors := errors results @ [''Promise rejected: '' @ thrown_to_string reason]\<rparr>"

definition fallbackIndividualWrite ::
  "string \<Rightarrow> ('s, item) client \<Rightarrow> item list \<Rightarrow> ('s, item) world
     \<Rightarrow> outcome \<times> ('s, item) world" where
  "fallbackIndividualWrite table client items w =
     (case write_items table client items w of
        (writeResults, w') \<Rightarrow>
          (foldl tally \<lparr>successful = 0, failed = 0, errors = []\<rparr> writeResults, w'))"

subsection \<open>The handler\<close>

text \<open>
  One record of the queue event: \<^verbatim>\<open>record.messageId\<close> and \<^verbatim>\<open>record.body\<close>, both strings.
  The event has the property \<^verbatim>\<open>Records\<close> with the list of its records, or has no such
  property (\<open>None\<close>: \<^verbatim>\<open>event.Records\<close> is \<^verbatim>\<open>undefined\<close>, as for the event \<^verbatim>\<open>{}\<close>).
\<close>

datatype sqs_record = SqsRecord (messageId: string) (body: string)

datatype sqs_event = SqsEvent (Records: "sqs_record list option")

datatype parse_error = ParseError string string

record final_results =
  totalProcessed :: nat
  batchResults :: outcome
  fallbackResults :: "outcome option"
  parseErrors :: "parse_error list option"

text \<open>
  The three objects given to \<^verbatim>\<open>JSON.stringify\<close> for the body of the response, each
  with its \<^verbatim>\<open>message\<close> first. In \<open>final_results\<close>, \<open>None\<close> is \<^verbatim>\<open>null\<close> for
  \<open>fallbackResults\<close> and \<^verbatim>\<open>undefined\<close> for \<open>parseErrors\<close>.
\<close>

datatype response_body =
    NoValidItems string "parse_error list"
  | ProcessingComplete string final_results
  | ProcessingFailed string string

datatype response = Response (statusCode: nat) (response_body: response_body)

text \<open>
  The body of the inner \<^verbatim>\<open>try\<close> (lines 212 to 215). \<^verbatim>\<open>JSON.parse\<close> is the parameter
  \<open>JSON_parse\<close>: the message of its SyntaxError, or the value.
\<close>

definition parse_record ::
  "(string \<Rightarrow> string + js_val) \<Rightarrow> string \<Rightarrow> nat \<Rightarrow> sqs_record \<Rightarrow> thrown + item" where
  "parse_record JSON_parse now_iso now_ms r =
     (case JSON_parse (body r) of
        Inl msg \<Rightarrow> Inl (SyntaxError msg)
      | Inr message \<Rightarrow>
          (case get_property message ''content'' of
             Inl e \<Rightarrow> Inl e
           | Inr content \<Rightarrow>
               (case parseJiraContent content of
                  Inl e \<Rightarrow> Inl e
                | Inr parsedFields \<Rightarrow> createDynamoItem now_iso now_ms message parsedFields)))"

text \<open>
  The \<^verbatim>\<open>for\<close> loop over \<^verbatim>\<open>event.Records\<close> (lines 210 to 229); \<open>clock k\<close> is what the
  clock reads while record number \<open>k\<close> is built.
\<close>

fun parse_records ::
  "(string \<Rightarrow> string + js_val) \<Rightarrow> (nat \<Rightarrow> string \<times> nat) \<Rightarrow> nat \<Rightarrow> sqs_record list
     \<Rightarrow> item list \<Rightarrow> parse_error list \<Rightarrow> thrown + (item list \<times> parse_error list)" where
  "parse_records JSON_parse clock k [] items parseErrs = Inr (items, parseErrs)"
| "parse_records JSON_parse clock k (r # rs) items parseErrs =
     (case parse_record JSON_parse (fst (clock k)) (snd (clock k)) r of
        Inr item \<Rightarrow> parse_records JSON_parse clock (k + 1) rs (items @ [item]) parseErrs
      | Inl parseError \<Rightarrow>
          (case error_message parseError of
             Inl e \<Rightarrow> Inl e
           | Inr msg \<Rightarrow>
               parse_records JSON_parse clock (k + 1) rs items
                 (parseErrs @ [ParseError (messageId r) msg])))"

text \<open>
  The outer \<^verbatim>\<open>try\<close> block (lines 206 to 268), for the list \<open>records\<close> that
  \<^verbatim>\<open>event.Records\<close> is when the block is entered.
\<close>

definition handler_try ::
  "(string \<Rightarrow> string + js_val) \<Rightarrow> (nat \<Rightarrow> string \<times> nat) \<Rightarrow> string \<Rightarrow> ('s, item) client
     \<Rightarrow> sqs_record list \<Rightarrow> ('s, item) world \<Rightarrow> (thrown + response) \<times> ('s, item) world" where
  "handler_try JSON_parse clock table client records w =
     (case parse_records JSON_parse clock 0 records [] [] of
        Inl e \<Rightarrow> (Inl e, w)
      | Inr (items, parseErrs) \<Rightarrow>
          if length items = 0 then
            (Inr (Response 400 (NoValidItems ''No valid items to process'' parseErrs)), w)
          else
            (case batchWriteToDynamoDB table client items w of
               (Inl e, w1) \<Rightarrow> (Inl e, w1)
             | (Inr batchRes, w1) \<Rightarrow>
                 (case (if failed batchRes > 0 then
                          (let failedItems = slice_from items (- failed batchRes) in
                           case fallbackIndividualWrite table client failedItems w1 of
                             (fr, w2) \<Rightarrow> (Some fr, w2))
                        else (None, w1)) of
                    (fallbackRes, w2) \<Rightarrow>
                      (let finalResults =
                             \<lparr>totalProcessed = length items,
                              batchResults = batchRes,
                              fallbackResults = fallbackRes,
                              parseErrors = (if length parseErrs > 0 then Some parseErrs
                                             else None)\<rparr>
                       in (Inr (Response 200 (ProcessingComplete ''Processing complete''
                                  finalResults)), w2)))))"

text \<open>
  \<^verbatim>\<open>exports.handler\<close>. Line 203 reads \<^verbatim>\<open>event.Records.length\<close> for the log line before the
  \<^verbatim>\<open>try\<close> block is entered: for an event without \<^verbatim>\<open>Records\<close> this raises a TypeError
  that no \<^verbatim>\<open>catch\<close> receives. Then comes the outer \<^verbatim>\<open>try\<close> with its \<^verbatim>\<open>catch\<close> (lines 205
  to 285). The result is \<open>Inl\<close> when the promise of the handler rejects.
\<close>

definition handler ::
  "(string \<Rightarrow> string + js_val) \<Rightarrow> (nat \<Rightarrow> string \<times> nat) \<Rightarrow> string \<Rightarrow> ('s, item) client
     \<Rightarrow> sqs_event \<Rightarrow> ('s, item) world \<Rightarrow> (thrown + response) \<times> ('s, item) world" where
  "handler JSON_parse clock table client event w =
     (case Records event of
        None \<Rightarrow>
          (Inl (TypeError ''Cannot read properties of undefined (reading 'length')''), w)
      | Some records \<Rightarrow>
          (case handler_try JSON_parse clock table client records w of
             (Inr resp, w') \<Rightarrow> (Inr resp, w')
           | (Inl error, w') \<Rightarrow>
               (case error_message error of
                  Inl e \<Rightarrow> (Inl e, w')
                | Inr msg \<Rightarrow>
                    (Inr (Response 500 (ProcessingFailed ''Processing failed'' msg)), w'))))"

text \<open>
  The assumption on the client under which the writers are specified: a request that
  fails rejects with an Error object (as the AWS SDK does), never with \<^verbatim>\<open>null\<close> or
  \<^verbatim>\<open>undefined\<close>.
\<close>

definition rejects_with_errors :: "('s, 'i) client \<Rightarrow> bool" where
  "rejects_with_errors client =
     (\<forall>s cmd e. fst (client s cmd) = Inl e \<longrightarrow> (\<exists>nm msg. e = Error nm msg))"

section \<open>Vocabulary of the specification\<close>

text \<open>
  The definitions of this section are not code of the handler: they name the notions the
  specification uses, so that the theorems can be stated.
\<close>

subsection \<open>Parser and record builder\<close>

text \<open>
  The pattern \<^verbatim>\<open>unknown-<digits>\<close>: the prefix \<^verbatim>\<open>unknown-\<close> followed by one or more
  decimal digits and nothing else.
\<close>

definition matches_unknown_digits :: "string \<Rightarrow> bool" where
  "matches_unknown_digits s =
     (take 8 s = ''unknown-'' \<and> drop 8 s \<noteq> [] \<and> list_all is_digit (drop 8 s))"

text \<open>
  A well-formed \<^verbatim>\<open>Key: Value\<close> line has its first colon at an index above 0. Its key is
  the text before the colon, trimmed and in lower case; its value is the text after the
  colon, trimmed.
\<close>

definition well_formed :: "string \<Rightarrow> bool" where
  "well_formed line = (indexOf line CHR '':'' > 0)"

definition line_key :: "string \<Rightarrow> string" where
  "line_key line = toLowerCase (trim (substring line 0 (indexOf line CHR '':'')))"

definition line_value :: "string \<Rightarrow> string" where
  "line_value line = trim (substring_from line (indexOf line CHR '':'' + 1))"

text \<open>
  The attribute a key is stored under: \<^verbatim>\<open>key\<close> becomes \<^verbatim>\<open>issueKey\<close>, every other key
  (recognised or not) keeps its name.
\<close>

definition attribute_name :: "string \<Rightarrow> string" where
  "attribute_name key = (if key = ''key'' then ''issueKey'' else key)"

text \<open>The lines that store an attribute, and what each of them stores.\<close>

definition contributes :: "string \<Rightarrow> bool" where
  "contributes line = (well_formed line \<and> line_key line \<noteq> ''__proto__'')"

definition entry :: "string \<Rightarrow> string \<times> string" where
  "entry line = (attribute_name (line_key line), line_value line)"

text \<open>The attribute names the parser can produce.\<close>

definition parsed_name :: "string \<Rightarrow> bool" where
  "parsed_name k = (k = ''issueKey'' \<or> k \<in> range toLowerCase)"

text \<open>An attribute of the record that \<open>createDynamoItem\<close> returned, if it returned one.\<close>

definition built_attribute :: "thrown + item \<Rightarrow> string \<Rightarrow> js_val option" where
  "built_attribute r k = (case r of Inl e \<Rightarrow> None | Inr item \<Rightarrow> item k)"

text \<open>The value \<open>createDynamoItem\<close> computes for \<^verbatim>\<open>issueId\<close>.\<close>

definition built_issueId :: "nat \<Rightarrow> fields \<Rightarrow> string" where
  "built_issueId now_ms parsedFields =
     (case parsedFields ''issueKey'' of
        None \<Rightarrow> ''unknown-'' @ nat_to_string now_ms
      | Some k \<Rightarrow> if k = [] then ''unknown-'' @ nat_to_string now_ms else k)"

text \<open>
  The properties of the object literal of \<open>createDynamoItem\<close> that stand before the
  spread, for a message object with the own properties \<open>props\<close>.
\<close>

definition base_fields :: "string \<Rightarrow> nat \<Rightarrow> (string \<times> js_val) list \<Rightarrow> fields \<Rightarrow> item" where
  "base_fields now_iso now_ms props parsedFields =
     [''issueId'' \<mapsto> Str (built_issueId now_ms parsedFields),
      ''timestamp'' \<mapsto> Str now_iso,
      ''title'' \<mapsto> (case map_of props ''title'' of None \<Rightarrow> Undefined | Some v \<Rightarrow> v),
      ''summary'' \<mapsto> field parsedFields ''summary'',
      ''priority'' \<mapsto> field parsedFields ''priority'',
      ''creator'' \<mapsto> field parsedFields ''creator'',
      ''status'' \<mapsto> field parsedFields ''status'',
      ''assignee'' \<mapsto> field parsedFields ''assignee'',
      ''content'' \<mapsto> (case map_of props ''content'' of None \<Rightarrow> Undefined | Some v \<Rightarrow> v),
      ''lastUpdated'' \<mapsto> Str now_iso,
      ''processedAt'' \<mapsto> Str now_iso]"

subsection \<open>Effects of the writers\<close>

text \<open>The commands sent first, the commands sent again, and the waits, each in order.\<close>

fun sent_commands :: "'i effect list \<Rightarrow> 'i command list" where
  "sent_commands [] = []"
| "sent_commands (Sent c # es) = c # sent_commands es"
| "sent_commands (e # es) = sent_commands es"

fun resent_commands :: "'i effect list \<Rightarrow> 'i command list" where
  "resent_commands [] = []"
| "resent_commands (Resent c # es) = c # resent_commands es"
| "resent_commands (e # es) = resent_commands es"

fun waits :: "'i effect list \<Rightarrow> nat list" where
  "waits [] = []"
| "waits (Waited ms # es) = ms # waits es"
| "waits (e # es) = waits es"

text \<open>
  The partition of a list into contiguous groups of at most \<open>n\<close> elements, in order: the
  groups of the specification of the batch writer.
\<close>

function chunks :: "nat \<Rightarrow> 'a list \<Rightarrow> 'a list list" where
  "chunks n xs = (if n = 0 \<or> xs = [] then [] else take n xs # chunks n (drop n xs))"
  by pat_completeness auto
termination
  by (relation "measure (\<lambda>(n, xs). length xs)") auto

declare chunks.simps [simp del]

text \<open>One group as one batched put request.\<close>

definition batch_command :: "string \<Rightarrow> 'i list \<Rightarrow> 'i command" where
  "batch_command table chunk = BatchWriteCommand table (map PutRequest chunk)"

subsection \<open>Store clients used as examples\<close>

text \<open>A client that accepts every request; its state counts the requests.\<close>

definition accepting_client :: "(nat, 'i) client" where
  "accepting_client s cmd = (Inr \<lparr>UnprocessedItems = None\<rparr>, s + 1)"

text \<open>A client whose first request fails with an exception and that accepts the later ones.\<close>

definition first_call_throttled_client :: "(nat, 'i) client" where
  "first_call_throttled_client s cmd =
     (if s = 0 then (Inl (Error ''ProvisionedThroughputExceededException'' ''throttled''), 1)
      else (Inr \<lparr>UnprocessedItems = Some Map.empty\<rparr>, s + 1))"

text \<open>A client that returns the same two items as unprocessed on every request.\<close>

definition same_two_rejected_client :: "(nat, nat) client" where
  "same_two_rejected_client s cmd =
     (Inr \<lparr>UnprocessedItems = Some [''issues'' \<mapsto> [PutRequest 2, PutRequest 4]]\<rparr>, s + 1)"

definition items26 :: "nat list" where
  "items26 = [1, 2, 3, 4, 5, 6, 7, 8, 9, 10, 11, 12, 13, 14, 15, 16, 17, 18, 19, 20,
              21, 22, 23, 24, 25, 26]"

subsection \<open>Per-item writes\<close>

text \<open>
  The answers of the client to the single-item puts of a list of records, in the order
  of the records.
\<close>

fun put_answers ::
  "string \<Rightarrow> ('s, item) client \<Rightarrow> item list \<Rightarrow> 's \<Rightarrow> (thrown + item command_output) list" where
  "put_answers table client [] s = []"
| "put_answers table client (item # items) s =
     (case client s (PutCommand table item) of (r, s') \<Rightarrow> r # put_answers table client items s')"

text \<open>
  The WriteResult of one record, from that record and the answer to its own put: success
  when the put resolved; a failure with the message when it rejected with an Error object;
  a rejected promise when reading the message raised.
\<close>

definition settle :: "item \<Rightarrow> thrown + 'x \<Rightarrow> settled" where
  "settle item r =
     (case r of
        Inr response \<Rightarrow> Fulfilled (WriteResult True (item_property item ''issueId'') None)
      | Inl error \<Rightarrow>
          (case error_message error of
             Inr msg \<Rightarrow> Fulfilled (WriteResult False (item_property item ''issueId'') (Some msg))
           | Inl e \<Rightarrow> Rejected e))"

text \<open>
  One error entry for each record whose put rejected with an Error object: the record's
  \<^verbatim>\<open>issueId\<close>, a colon and a space, and the message.
\<close>

fun tagged_errors :: "(item \<times> (thrown + 'x)) list \<Rightarrow> string list" where
  "tagged_errors [] = []"
| "tagged_errors ((item, Inl (Error nm msg)) # rest) =
     (js_to_string (item_property item ''issueId'') @ '': '' @ msg) # tagged_errors rest"
| "tagged_errors (other # rest) = tagged_errors rest"

text \<open>One record as one single-item put request.\<close>

definition put_command :: "string \<Rightarrow> item \<Rightarrow> item effect" where
  "put_command table item = Sent (PutCommand table item)"

text \<open>A client whose second and fourth requests fail with an exception.\<close>

definition second_and_fourth_fail_client :: "(nat, item) client" where
  "second_and_fourth_fail_client s cmd =
     (if s = 1 \<or> s = 3 then (Inl (Error ''Error'' ''write failed''), s + 1)
      else (Inr \<lparr>UnprocessedItems = None\<rparr>, s + 1))"

text \<open>A record with nothing but its identifier.\<close>

definition issue :: "string \<Rightarrow> item" where
  "issue k = [''issueId'' \<mapsto> Str k]"

subsection \<open>The parse phase of the handler\<close>

text \<open>
  The result of parsing and building each record of the event on its own, in the order
  of the records; the items among these results; and one parse error, with the
  \<^verbatim>\<open>messageId\<close> of its record, for each record that raised.
\<close>

fun parse_outcomes ::
  "(string \<Rightarrow> string + js_val) \<Rightarrow> (nat \<Rightarrow> string \<times> nat) \<Rightarrow> nat \<Rightarrow> sqs_record list
     \<Rightarrow> (thrown + item) list" where
  "parse_outcomes JSON_parse clock k [] = []"
| "parse_outcomes JSON_parse clock k (r # rs) =
     parse_record JSON_parse (fst (clock k)) (snd (clock k)) r
       # parse_outcomes JSON_parse clock (k + 1) rs"

fun parsed_items :: "(thrown + item) list \<Rightarrow> item list" where
  "parsed_items [] = []"
| "parsed_items (Inr item # rest) = item # parsed_items rest"
| "parsed_items (Inl e # rest) = parsed_items rest"

fun parse_failures :: "(sqs_record \<times> (thrown + item)) list \<Rightarrow> parse_error list" where
  "parse_failures [] = []"
| "parse_failures ((r, Inl (Error nm msg)) # rest) =
     ParseError (messageId r) msg # parse_failures rest"
| "parse_failures (other # rest) = parse_failures rest"

definition built_items ::
  "(string \<Rightarrow> string + js_val) \<Rightarrow> (nat \<Rightarrow> string \<times> nat) \<Rightarrow> sqs_record list \<Rightarrow> item list" where
  "built_items JSON_parse clock records = parsed_items (parse_outcomes JSON_parse clock 0 records)"

definition recorded_parse_errors ::
  "(string \<Rightarrow> string + js_val) \<Rightarrow> (nat \<Rightarrow> string \<times> nat) \<Rightarrow> sqs_record list
     \<Rightarrow> parse_error list" where
  "recorded_parse_errors JSON_parse clock records =
     parse_failures (zip records (parse_outcomes JSON_parse clock 0 records))"

text \<open>The identifiers of the records sent as single-item puts, in order.\<close>

fun put_issueIds :: "item effect list \<Rightarrow> js_val list" where
  "put_issueIds [] = []"
| "put_issueIds (Sent (PutCommand table item) # es) =
     item_property item ''issueId'' # put_issueIds es"
| "put_issueIds (e # es) = put_issueIds es"

subsection \<open>Parameters of the handler used as examples\<close>

text \<open>
  A stand-in for \<^verbatim>\<open>JSON.parse\<close>: a body that starts with a brace is a message whose
  content is the rest of the body; any other body is a syntax error.
\<close>

definition toy_JSON_parse :: "string \<Rightarrow> string + js_val" where
  "toy_JSON_parse s =
     (case s of
        [] \<Rightarrow> Inl ''Unexpected end of JSON input''
      | c # rest \<Rightarrow>
          if c = CHR ''{''
          then Inr (Obj [(''title'', Str ''Issue updated''), (''content'', Str rest)])
          else Inl ''Unexpected token in JSON at position 0'')"

definition fixed_clock :: "nat \<Rightarrow> string \<times> nat" where
  "fixed_clock k = (''2024-05-01T10:00:00.000Z'', 1714557600000)"


text \<open>
  A client that returns the first item of every batch as unprocessed and accepts every
  single-item put.
\<close>

definition first_of_batch_unprocessed_client :: "(nat, 'i) client" where
  "first_of_batch_unprocessed_client s cmd =
     (case cmd of
        BatchWriteCommand table requests \<Rightarrow>
          (Inr \<lparr>UnprocessedItems = Some [table \<mapsto> take 1 requests]\<rparr>, s + 1)
      | PutCommand table item \<Rightarrow> (Inr \<lparr>UnprocessedItems = None\<rparr>, s + 1))"

section \<open>Content parser and record builder\<close>

subsection \<open>Auxiliary facts\<close>

lemma is_digit_digit_char: "d < 10 \<Longrightarrow> is_digit (digit_char d)"
  unfolding is_digit_def digit_char_def by (rule nth_mem) simp

lemma nat_to_string_digits: "nat_to_string n \<noteq> [] \<and> list_all is_digit (nat_to_string n)"
proof (induction n rule: nat_to_string.induct)
  case (1 n)
  show ?case
  proof (cases "n < 10")
    case True
    then show ?thesis
      by (simp add: nat_to_string.simps [of n] is_digit_digit_char)
  next
    case False
    with 1 show ?thesis
      by (simp add: nat_to_string.simps [of n] is_digit_digit_char)
  qed
qed

lemma matches_unknown_digits_fallback: "matches_unknown_digits (''unknown-'' @ nat_to_string n)"
  by (simp add: matches_unknown_digits_def nat_to_string_digits)

lemma char_lower_neq_I: "char_lower c \<noteq> CHR ''I''"
proof (cases "is_upper c")
  case True
  then show ?thesis by (cases c) (simp add: char_lower_def)
next
  case False
  have "is_upper CHR ''I''" by (simp add: is_upper_def)
  with False have "c \<noteq> CHR ''I''" by blast
  with False show ?thesis by (simp add: char_lower_def)
qed

lemma char_lower_neq_U: "char_lower c \<noteq> CHR ''U''"
proof (cases "is_upper c")
  case True
  then show ?thesis by (cases c) (simp add: char_lower_def)
next
  case False
  have "is_upper CHR ''U''" by (simp add: is_upper_def)
  with False have "c \<noteq> CHR ''U''" by blast
  with False show ?thesis by (simp add: char_lower_def)
qed

lemma char_lower_neq_A: "char_lower c \<noteq> CHR ''A''"
proof (cases "is_upper c")
  case True
  then show ?thesis by (cases c) (simp add: char_lower_def)
next
  case False
  have "is_upper CHR ''A''" by (simp add: is_upper_def)
  with False have "c \<noteq> CHR ''A''" by blast
  with False show ?thesis by (simp add: char_lower_def)
qed

lemma toLowerCase_no_capitals:
  "CHR ''I'' \<notin> set (toLowerCase s)" "CHR ''U'' \<notin> set (toLowerCase s)" "CHR ''A'' \<notin> set (toLowerCase s)"
  using char_lower_neq_I char_lower_neq_U char_lower_neq_A
  by (auto simp: toLowerCase_def) metis+

lemma parse_line_eq:
  "parse_line m line =
     (if contributes line then m(attribute_name (line_key line) \<mapsto> line_value line) else m)"
  by (simp add: parse_line_def Let_def set_property_def contributes_def well_formed_def
      line_key_def line_value_def attribute_name_def)

lemma length_filter_conj_le: "length (filter (\<lambda>x. P x \<and> Q x) xs) \<le> length (filter P xs)"
  by (induction xs) auto

lemma foldl_parse_line:
  "foldl parse_line m ls = m ++ map_of (rev (map entry (filter contributes ls)))"
proof (induction ls arbitrary: m)
  case Nil
  show ?case by simp
next
  case (Cons l ls)
  show ?case
  proof (cases "contributes l")
    case False
    then have "parse_line m l = m" by (simp add: parse_line_eq)
    with False show ?thesis by (simp add: Cons)
  next
    case True
    then have "parse_line m l = m ++ map_of [entry l]"
      by (simp add: parse_line_eq entry_def)
    with True show ?thesis
      by (simp add: Cons map_add_assoc del: map_of.simps)
  qed
qed

lemma parse_content_eq:
  "parse_content content = map_of (rev (map entry (filter contributes (split_lines content))))"
  by (simp add: parse_content_def foldl_parse_line)

lemma dom_parse_content:
  "dom (parse_content content) = fst ` set (map entry (filter contributes (split_lines content)))"
  by (simp add: parse_content_eq dom_map_of_conv_image_fst)

lemma card_parse_content_le:
  "card (dom (parse_content content)) \<le> length (filter well_formed (split_lines content))"
proof -
  have "card (dom (parse_content content))
          \<le> length (map entry (filter contributes (split_lines content)))"
    unfolding dom_parse_content by (metis card_image_le List.finite_set card_length le_trans)
  also have "\<dots> \<le> length (filter well_formed (split_lines content))"
    unfolding length_map contributes_def by (rule length_filter_conj_le)
  finally show ?thesis .
qed

lemma parse_content_names:
  assumes "parse_content content k = Some v"
  shows "parsed_name k"
proof -
  from assms have "k \<in> dom (parse_content content)" by blast
  then obtain l where "k = attribute_name (line_key l)"
    unfolding dom_parse_content by (auto simp: entry_def)
  then show ?thesis
    by (auto simp: parsed_name_def attribute_name_def line_key_def)
qed

lemma toLowerCase_neq_capitals:
  "toLowerCase s \<noteq> ''issueId''" "toLowerCase s \<noteq> ''lastUpdated''"
  "toLowerCase s \<noteq> ''processedAt''"
proof -
  show "toLowerCase s \<noteq> ''issueId''"
  proof
    assume a: "toLowerCase s = ''issueId''"
    have "CHR ''I'' \<in> set ''issueId''" by simp
    then have "CHR ''I'' \<in> set (toLowerCase s)" unfolding a .
    then show False using toLowerCase_no_capitals(1) by blast
  qed
  show "toLowerCase s \<noteq> ''lastUpdated''"
  proof
    assume a: "toLowerCase s = ''lastUpdated''"
    have "CHR ''U'' \<in> set ''lastUpdated''" by simp
    then have "CHR ''U'' \<in> set (toLowerCase s)" unfolding a .
    then show False using toLowerCase_no_capitals(2) by blast
  qed
  show "toLowerCase s \<noteq> ''processedAt''"
  proof
    assume a: "toLowerCase s = ''processedAt''"
    have "CHR ''A'' \<in> set ''processedAt''" by simp
    then have "CHR ''A'' \<in> set (toLowerCase s)" unfolding a .
    then show False using toLowerCase_no_capitals(3) by blast
  qed
qed

lemma parsed_name_capitals:
  "\<not> parsed_name ''issueId''" "\<not> parsed_name ''lastUpdated''" "\<not> parsed_name ''processedAt''"
proof -
  have "''issueId'' \<notin> range toLowerCase" "''lastUpdated'' \<notin> range toLowerCase"
    "''processedAt'' \<notin> range toLowerCase"
    using toLowerCase_neq_capitals by (metis rangeE)+
  moreover have "''issueId'' \<noteq> ''issueKey''" "''lastUpdated'' \<noteq> ''issueKey''"
    "''processedAt'' \<noteq> ''issueKey''"
    by simp_all
  ultimately show "\<not> parsed_name ''issueId''" "\<not> parsed_name ''lastUpdated''"
    "\<not> parsed_name ''processedAt''"
    unfolding parsed_name_def by blast+
qed

lemma filter_contributes_eq:
  assumes "\<And>l. l \<in> set ls \<Longrightarrow> well_formed l \<Longrightarrow> line_key l \<noteq> ''__proto__''"
  shows "filter contributes ls = filter well_formed ls"
  using assms by (auto simp: contributes_def intro!: filter_cong)

lemma card_parse_content_distinct:
  assumes "distinct (map (attribute_name \<circ> line_key) (filter well_formed (split_lines content)))"
    and "\<And>l. l \<in> set (split_lines content) \<Longrightarrow> well_formed l \<Longrightarrow> line_key l \<noteq> ''__proto__''"
  shows "card (dom (parse_content content)) = length (filter well_formed (split_lines content))"
proof -
  let ?wf = "filter well_formed (split_lines content)"
  have eq: "filter contributes (split_lines content) = ?wf"
    using assms(2) by (rule filter_contributes_eq)
  have "dom (parse_content content) = set (map (attribute_name \<circ> line_key) ?wf)"
    unfolding dom_parse_content eq by (auto simp: entry_def image_iff)
  then show ?thesis
    using distinct_card [OF assms(1)] by simp
qed

lemma parse_content_distinct_value:
  assumes "distinct (map (attribute_name \<circ> line_key) (filter well_formed (split_lines content)))"
    and "\<And>l. l \<in> set (split_lines content) \<Longrightarrow> well_formed l \<Longrightarrow> line_key l \<noteq> ''__proto__''"
    and "l \<in> set (split_lines content)" and "well_formed l"
  shows "parse_content content (attribute_name (line_key l)) = Some (line_value l)"
proof -
  let ?wf = "filter well_formed (split_lines content)"
  have eq: "filter contributes (split_lines content) = ?wf"
    using assms(2) by (rule filter_contributes_eq)
  have "map fst (rev (map entry ?wf)) = rev (map (attribute_name \<circ> line_key) ?wf)"
    by (simp add: rev_map entry_def comp_def)
  then have d: "distinct (map fst (rev (map entry ?wf)))"
    using assms(1) by simp
  have "(attribute_name (line_key l), line_value l) \<in> set (rev (map entry ?wf))"
    using assms(3,4) by (auto simp: entry_def)
  then have "map_of (rev (map entry ?wf)) (attribute_name (line_key l)) = Some (line_value l)"
    using d by (rule map_of_is_SomeI [rotated])
  then show ?thesis
    by (simp add: parse_content_eq eq)
qed

lemma createDynamoItem_Obj:
  "createDynamoItem now_iso now_ms (Obj props) parsedFields =
     Inr (base_fields now_iso now_ms props parsedFields ++ additional_fields parsedFields)"
  by (simp add: createDynamoItem_def base_fields_def built_issueId_def Let_def)

lemma additional_fields_Some:
  "k \<notin> set mapped_names \<Longrightarrow> parsedFields k = Some v \<Longrightarrow> additional_fields parsedFields k = Some (Str v)"
  by (simp add: additional_fields_def)

lemma additional_fields_None:
  "k \<in> set mapped_names \<or> parsedFields k = None \<Longrightarrow> additional_fields parsedFields k = None"
  by (auto simp: additional_fields_def)

lemma parse_content_capitals:
  "parse_content content ''issueId'' = None" "parse_content content ''lastUpdated'' = None"
  "parse_content content ''processedAt'' = None"
  using parse_content_names [of content] parsed_name_capitals
  by (metis not_Some_eq)+

lemmas evaluate_parser =
  parse_content_def parse_line_def substring_def substring_from_def clamp_index_def trim_def
  toLowerCase_def char_lower_def is_upper_def is_space_def set_property_def

lemmas evaluate_lines =
  well_formed_def line_key_def line_value_def attribute_name_def substring_def
  substring_from_def clamp_index_def trim_def toLowerCase_def char_lower_def is_upper_def
  is_space_def

subsection \<open>Extension attributes (claim C3)\<close>

text \<open>
  Claim C3 says that an extension attribute never overwrites a field of the record. It
  fails: for the content line \<^verbatim>\<open>Title: Spoofed\<close> the parser yields the extension attribute
  \<^verbatim>\<open>title\<close>, and the record built from a message with the title \<^verbatim>\<open>Issue updated\<close> has the
  title \<^verbatim>\<open>Spoofed\<close>.
\<close>

theorem extension_counterexample:
  "built_attribute
     (createDynamoItem ''2024-05-01T10:00:00.000Z'' 1714557600000
        (Obj [(''title'', Str ''Issue updated''), (''content'', Str ''Title: Spoofed'')])
        (parse_content ''Title: Spoofed'')) ''title''
   = Some (Str ''Spoofed'')"
  by (simp add: built_attribute_def createDynamoItem_def additional_fields_def mapped_names_def
      map_add_def Let_def evaluate_parser)

text \<open>
  Claim C3, amended. For every message object and every ParsedFields, the record builder
  returns a record in which
  \<^item> every extension attribute (a parsed key outside the six mapped names \<^verbatim>\<open>issueKey\<close>,
    \<^verbatim>\<open>summary\<close>, \<^verbatim>\<open>priority\<close>, \<^verbatim>\<open>creator\<close>, \<^verbatim>\<open>status\<close>, \<^verbatim>\<open>assignee\<close>) is present with its
    parsed value, also when its name is that of a field of the record (\<^verbatim>\<open>timestamp\<close>,
    \<^verbatim>\<open>title\<close>, \<^verbatim>\<open>content\<close>): the extension attribute takes precedence;
  \<^item> every other property is the one the object literal gives before the spread: the six
    mapped names are never copied as extensions, and a field with no extension attribute
    of its name keeps its value;
  \<^item> for ParsedFields that come from the parser, \<^verbatim>\<open>issueId\<close>, \<^verbatim>\<open>lastUpdated\<close> and
    \<^verbatim>\<open>processedAt\<close> are never replaced, since the parser produces no such key.
\<close>

theorem extension_attributes_replace_fields:
  "\<exists>item. createDynamoItem now_iso now_ms (Obj props) parsedFields = Inr item
     \<and> (\<forall>k v. k \<notin> set mapped_names \<longrightarrow> parsedFields k = Some v \<longrightarrow> item k = Some (Str v))
     \<and> (\<forall>k. k \<in> set mapped_names \<or> parsedFields k = None \<longrightarrow>
              item k = base_fields now_iso now_ms props parsedFields k)
     \<and> (\<forall>content k. parsedFields = parse_content content \<longrightarrow>
              k \<in> {''issueId'', ''lastUpdated'', ''processedAt''} \<longrightarrow>
              item k = base_fields now_iso now_ms props parsedFields k)"
  unfolding createDynamoItem_Obj
  using parse_content_capitals
  by (auto simp: map_add_def additional_fields_Some additional_fields_None)

text \<open>
  An instance: the extension attributes \<^verbatim>\<open>title\<close> and \<^verbatim>\<open>component\<close> are in the record with
  their parsed values; \<^verbatim>\<open>summary\<close> and \<^verbatim>\<open>content\<close> keep the values of the object literal.
\<close>

theorem extension_attributes_replace_fields_witness:
  "\<exists>item. createDynamoItem ''2024-05-01T10:00:00.000Z'' 1714557600000
        (Obj [(''title'', Str ''Issue updated''), (''content'', Str ''c'')])
        [''title'' \<mapsto> ''Spoofed'', ''component'' \<mapsto> ''ui'', ''summary'' \<mapsto> ''s''] = Inr item
     \<and> item ''title'' = Some (Str ''Spoofed'')
     \<and> item ''component'' = Some (Str ''ui'')
     \<and> item ''summary'' = Some (Str ''s'')
     \<and> item ''content'' = Some (Str ''c'')"
proof -
  let ?pf = "[''title'' \<mapsto> ''Spoofed'', ''component'' \<mapsto> ''ui'', ''summary'' \<mapsto> ''s'']"
  obtain item where
    i: "createDynamoItem ''2024-05-01T10:00:00.000Z'' 1714557600000
          (Obj [(''title'', Str ''Issue updated''), (''content'', Str ''c'')]) ?pf = Inr item"
    and ext: "\<forall>k v. k \<notin> set mapped_names \<longrightarrow> ?pf k = Some v \<longrightarrow> item k = Some (Str v)"
    and base: "\<forall>k. k \<in> set mapped_names \<or> ?pf k = None \<longrightarrow>
                 item k = base_fields ''2024-05-01T10:00:00.000Z'' 1714557600000
                            [(''title'', Str ''Issue updated''), (''content'', Str ''c'')] ?pf k"
    using extension_attributes_replace_fields
      [of "''2024-05-01T10:00:00.000Z''" 1714557600000
          "[(''title'', Str ''Issue updated''), (''content'', Str ''c'')]" ?pf]
    by blast
  have "item ''title'' = Some (Str ''Spoofed'')"
    using ext [rule_format, of "''title''" "''Spoofed''"] by (simp add: mapped_names_def)
  moreover have "item ''component'' = Some (Str ''ui'')"
    using ext [rule_format, of "''component''" "''ui''"] by (simp add: mapped_names_def)
  moreover have "item ''summary'' = Some (Str ''s'')"
    using base [rule_format, of "''summary''"]
    by (simp add: mapped_names_def base_fields_def field_def)
  moreover have "item ''content'' = Some (Str ''c'')"
    using base [rule_format, of "''content''"]
    by (simp add: mapped_names_def base_fields_def field_def)
  ultimately show ?thesis using i by blast
qed

subsection \<open>The identifier of a record (claim C7)\<close>

text \<open>
  Claim C7 says that \<^verbatim>\<open>issueId\<close> equals \<^verbatim>\<open>issueKey\<close> whenever the parsed \<^verbatim>\<open>issueKey\<close> is not
  absent. It fails for the content \<^verbatim>\<open>Key:\<close>: the parsed \<^verbatim>\<open>issueKey\<close> is present and is the
  empty string, and the record gets the generated identifier.
\<close>

theorem issueId_counterexample:
  "parse_content ''Key:'' ''issueKey'' = Some []
   \<and> built_attribute
       (createDynamoItem ''2024-05-01T10:00:00.000Z'' 1714557600000
          (Obj [(''title'', Str ''Issue updated''), (''content'', Str ''Key:'')])
          (parse_content ''Key:'')) ''issueId''
     = Some (Str ''unknown-1714557600000'')"
  by (simp add: built_attribute_def createDynamoItem_def additional_fields_def mapped_names_def
      map_add_def Let_def evaluate_parser nat_to_string.simps digit_char_def)

text \<open>
  Claim C7, amended. For every record built from parsed content: if the parsed
  \<^verbatim>\<open>issueKey\<close> is absent or is the empty string, \<^verbatim>\<open>issueId\<close> is \<^verbatim>\<open>unknown-\<close> followed by the
  decimal digits of the clock reading in milliseconds, which matches the pattern
  \<^verbatim>\<open>unknown-<digits>\<close>; otherwise \<^verbatim>\<open>issueId\<close> equals \<^verbatim>\<open>issueKey\<close> exactly.
\<close>

theorem issueId_of_built_record:
  "\<exists>item. createDynamoItem now_iso now_ms (Obj props) (parse_content content) = Inr item
     \<and> (case parse_content content ''issueKey'' of
           None \<Rightarrow> item ''issueId'' = Some (Str (''unknown-'' @ nat_to_string now_ms))
         | Some k \<Rightarrow>
             if k = [] then item ''issueId'' = Some (Str (''unknown-'' @ nat_to_string now_ms))
             else item ''issueId'' = Some (Str k))
     \<and> matches_unknown_digits (''unknown-'' @ nat_to_string now_ms)"
  unfolding createDynamoItem_Obj
  using matches_unknown_digits_fallback [of now_ms]
  by (simp add: map_add_def additional_fields_None parse_content_capitals base_fields_def
      built_issueId_def split: option.split)

text \<open>An instance: the line \<^verbatim>\<open>KEY : TEST-4\<close> gives the identifier \<^verbatim>\<open>TEST-4\<close>.\<close>

theorem issueId_of_built_record_witness:
  "\<exists>item. createDynamoItem ''2024-05-01T10:00:00.000Z'' 1714557600000
       (Obj [(''title'', Str ''t''), (''content'', Str ''KEY : TEST-4'')])
       (parse_content ''KEY : TEST-4'') = Inr item
     \<and> item ''issueId'' = Some (Str ''TEST-4'')"
  using issueId_of_built_record [of "''2024-05-01T10:00:00.000Z''" 1714557600000
      "[(''title'', Str ''t''), (''content'', Str ''KEY : TEST-4'')]" "''KEY : TEST-4''"]
  by (auto simp add: evaluate_parser)

subsection \<open>The number of parsed attributes (claim C8)\<close>

lemma parse_line_not_well_formed: "\<not> well_formed l \<Longrightarrow> parse_line m l = m"
  by (simp add: parse_line_eq contributes_def)

text \<open>
  Claim C8 says that N well-formed lines yield exactly N attributes. It fails when two
  lines have the same key: the content of the two lines \<^verbatim>\<open>a: 1\<close> and \<^verbatim>\<open>a: 2\<close> has two
  well-formed lines and yields one attribute.
\<close>

theorem parser_count_counterexample:
  "length (filter well_formed (split_lines ''a: 1\<newline>a: 2'')) = 2
   \<and> card (dom (parse_content ''a: 1\<newline>a: 2'')) = 1"
  by (simp add: well_formed_def evaluate_parser)

text \<open>
  Claim C8, amended. For every content string with N well-formed lines (first colon at an
  index above 0):
  \<^item> the parser yields at most N attributes, and N is at most the number of lines;
  \<^item> it yields exactly N attributes when the attribute names of the well-formed lines are
    pairwise distinct and none of the keys is \<^verbatim>\<open>__proto__\<close>, and then each well-formed
    line's attribute holds that line's value;
  \<^item> a line that is not well formed (no colon, or the colon at index 0) changes nothing;
  \<^item> in every case the result maps the attribute name of a contributing line to the value
    of the last such line, where keys are compared in lower case after trimming and
    values are trimmed.
\<close>

theorem parser_attributes:
  "card (dom (parse_content content)) \<le> length (filter well_formed (split_lines content))
   \<and> length (filter well_formed (split_lines content)) \<le> length (split_lines content)
   \<and> (distinct (map (attribute_name \<circ> line_key) (filter well_formed (split_lines content)))
        \<and> (\<forall>l \<in> set (split_lines content). well_formed l \<longrightarrow> line_key l \<noteq> ''__proto__'')
       \<longrightarrow> card (dom (parse_content content)) = length (filter well_formed (split_lines content))
           \<and> (\<forall>l \<in> set (split_lines content). well_formed l \<longrightarrow>
                 parse_content content (attribute_name (line_key l)) = Some (line_value l)))
   \<and> (\<forall>m l. \<not> well_formed l \<longrightarrow> parse_line m l = m)
   \<and> parse_content content = map_of (rev (map entry (filter contributes (split_lines content))))"
proof (intro conjI impI allI ballI)
  show "card (dom (parse_content content)) \<le> length (filter well_formed (split_lines content))"
    by (rule card_parse_content_le)
  show "length (filter well_formed (split_lines content)) \<le> length (split_lines content)"
    by (rule length_filter_le)
  show "parse_content content = map_of (rev (map entry (filter contributes (split_lines content))))"
    by (rule parse_content_eq)
next
  fix m l assume "\<not> well_formed l"
  then show "parse_line m l = m" by (rule parse_line_not_well_formed)
next
  assume h: "distinct (map (attribute_name \<circ> line_key) (filter well_formed (split_lines content)))
        \<and> (\<forall>l \<in> set (split_lines content). well_formed l \<longrightarrow> line_key l \<noteq> ''__proto__'')"
  then show "card (dom (parse_content content)) = length (filter well_formed (split_lines content))"
    by (intro card_parse_content_distinct) auto
  fix l assume "l \<in> set (split_lines content)" "well_formed l"
  with h show "parse_content content (attribute_name (line_key l)) = Some (line_value l)"
    by (intro parse_content_distinct_value) auto
qed

text \<open>
  An instance with five lines, three of them well formed, with keys in mixed case and
  padded values.
\<close>

theorem parser_attributes_witness:
  "card (dom (parse_content
      ''Key: TEST-4\<newline>SUMMARY :  test ticket \<newline>no colon here\<newline>:lead\<newline>Component: ui'')) = 3
   \<and> parse_content
      ''Key: TEST-4\<newline>SUMMARY :  test ticket \<newline>no colon here\<newline>:lead\<newline>Component: ui''
      ''summary'' = Some ''test ticket''"
proof -
  let ?c = "''Key: TEST-4\<newline>SUMMARY :  test ticket \<newline>no colon here\<newline>:lead\<newline>Component: ui''"
  have lines: "split_lines ?c =
      [''Key: TEST-4'', ''SUMMARY :  test ticket '', ''no colon here'', '':lead'', ''Component: ui'']"
    by simp
  have wf: "filter well_formed (split_lines ?c) =
      [''Key: TEST-4'', ''SUMMARY :  test ticket '', ''Component: ui'']"
    unfolding lines by (simp add: well_formed_def)
  have d: "distinct (map (attribute_name \<circ> line_key) (filter well_formed (split_lines ?c)))"
    unfolding wf by (simp add: evaluate_lines)
  have p: "\<forall>l \<in> set (split_lines ?c). well_formed l \<longrightarrow> line_key l \<noteq> ''__proto__''"
    unfolding lines by (simp add: evaluate_lines)
  have s: "''SUMMARY :  test ticket '' \<in> set (split_lines ?c)"
    unfolding lines by simp
  have k: "well_formed ''SUMMARY :  test ticket ''"
      "attribute_name (line_key ''SUMMARY :  test ticket '') = ''summary''"
      "line_value ''SUMMARY :  test ticket '' = ''test ticket''"
    by (simp_all add: evaluate_lines)
  from parser_attributes [of ?c] d p
  have "card (dom (parse_content ?c)) = length (filter well_formed (split_lines ?c))"
    and "\<forall>l \<in> set (split_lines ?c). well_formed l \<longrightarrow>
           parse_content ?c (attribute_name (line_key l)) = Some (line_value l)"
    by blast+
  with s k wf show ?thesis by (metis length_Cons list.size(3) numeral_3_eq_3)
qed

section \<open>Batch writer\<close>

subsection \<open>Auxiliary facts\<close>

lemma sent_commands_append [simp]: "sent_commands (es @ fs) = sent_commands es @ sent_commands fs"
  by (induction es rule: sent_commands.induct) auto

lemma resent_commands_append [simp]:
  "resent_commands (es @ fs) = resent_commands es @ resent_commands fs"
  by (induction es rule: resent_commands.induct) auto

lemma waits_append [simp]: "waits (es @ fs) = waits es @ waits fs"
  by (induction es rule: waits.induct) auto

lemma chunks_Nil [simp]: "chunks n [] = []"
  by (simp add: chunks.simps)

lemma chunks_step: "0 < n \<Longrightarrow> xs \<noteq> [] \<Longrightarrow> chunks n xs = take n xs # chunks n (drop n xs)"
  by (simp add: chunks.simps [of n xs])

lemma concat_chunks: "0 < n \<Longrightarrow> concat (chunks n xs) = xs"
proof (induction n xs rule: chunks.induct)
  case (1 n xs)
  then show ?case by (cases "xs = []") (simp_all add: chunks_step)
qed

lemma length_chunks: "0 < n \<Longrightarrow> length (chunks n xs) = (length xs + n - 1) div n"
proof (induction n xs rule: chunks.induct)
  case (1 n xs)
  show ?case
  proof (cases "xs = []")
    case True
    with 1 show ?thesis by simp
  next
    case False
    then have pos: "0 < length xs" by simp
    have ih: "length (chunks n (drop n xs)) = (length xs - n + n - 1) div n"
      using 1 False by simp
    show ?thesis
    proof (cases "n \<le> length xs")
      case True
      then obtain m where m: "length xs = m + n"
        by (metis le_add_diff_inverse2)
      have "m + n + n - 1 = (m + n - 1) + n" using "1.prems" by arith
      then have "(m + n + n - 1) div n = (m + n - 1) div n + 1"
        using "1.prems" by (simp only: div_add_self2)
      with ih m False "1.prems" show ?thesis by (simp add: chunks_step)
    next
      case False
      then have d: "drop n xs = []" by simp
      from False pos "1.prems" have "length xs + n - 1 = (length xs - 1) + n" "length xs - 1 < n"
        by arith+
      then have "(length xs + n - 1) div n = 1"
        using "1.prems" by (simp only: div_add_self2) simp
      with d \<open>xs \<noteq> []\<close> "1.prems" show ?thesis by (simp add: chunks_step)
    qed
  qed
qed

lemma chunk_sizes: "g \<in> set (chunks n xs) \<Longrightarrow> 0 < length g \<and> length g \<le> n"
proof (induction n xs rule: chunks.induct)
  case (1 n xs)
  then show ?case
    by (cases "n = 0 \<or> xs = []") (auto simp: chunks.simps [of n xs] split: if_splits)
qed

lemma slice_chunk:
  "i \<le> length items \<Longrightarrow> slice items (int i) (int (i + n)) = take n (drop i items)"
proof -
  have "nat (int i + int n) = i + n" by (simp add: nat_int_add)
  then show "i \<le> length items \<Longrightarrow> ?thesis"
    by (auto simp: slice_def slice_index_def Let_def min_def)
qed

lemma dynamoDB_send_effects:
  "dynamoDB_send tag client cmd w = (r, w') \<Longrightarrow>
     effects w' = effects w @ [tag cmd] \<and> client (store w) cmd = (r, store w')"
  by (auto simp: dynamoDB_send_def split: prod.splits)

lemma rejects_with_errorsD:
  "rejects_with_errors client \<Longrightarrow> client s cmd = (Inl e, s') \<Longrightarrow> \<exists>nm msg. e = Error nm msg"
  unfolding rejects_with_errors_def by (metis fst_conv)

lemma retry_loop_stop:
  "unprocessedItems = [] \<or> MAX_RETRIES \<le> retryCount \<Longrightarrow>
     retry_loop table client unprocessedItems retryCount w = (Inr unprocessedItems, w)"
  by (auto simp: retry_loop.simps [of table client unprocessedItems retryCount w])

lemma retry_loop_step:
  "unprocessedItems \<noteq> [] \<Longrightarrow> retryCount < MAX_RETRIES \<Longrightarrow>
     retry_loop table client unprocessedItems retryCount w =
       (case dynamoDB_send Resent client (BatchWriteCommand table unprocessedItems)
               (setTimeout_wait (2 ^ retryCount * 100) w) of
          (Inl e, w') \<Rightarrow> (Inl e, w')
        | (Inr retryResponse, w') \<Rightarrow>
            retry_loop table client (unprocessed_of table retryResponse) (retryCount + 1) w')"
  by (simp add: retry_loop.simps [of table client unprocessedItems retryCount w])

lemma setTimeout_wait_simps [simp]:
  "effects (setTimeout_wait ms w) = effects w @ [Waited ms]"
  "store (setTimeout_wait ms w) = store w"
  by (simp_all add: setTimeout_wait_def)

lemma retry_loop_raises:
  assumes "rejects_with_errors client"
  shows "retry_loop table client u k w = (Inl e, w') \<Longrightarrow> \<exists>nm msg. e = Error nm msg"
proof (induction "MAX_RETRIES - k" arbitrary: u k w)
  case 0
  then have "retry_loop table client u k w = (Inr u, w)"
    by (intro retry_loop_stop) simp
  with 0 show ?case by simp
next
  case (Suc m)
  show ?case
  proof (cases "u = []")
    case True
    then have "retry_loop table client u k w = (Inr u, w)"
      by (intro retry_loop_stop) simp
    with Suc.prems show ?thesis by simp
  next
    case False
    from Suc.hyps(2) have k: "k < MAX_RETRIES" by simp
    obtain r w1 where s: "dynamoDB_send Resent client (BatchWriteCommand table u)
                            (setTimeout_wait (2 ^ k * 100) w) = (r, w1)"
      by (cases "dynamoDB_send Resent client (BatchWriteCommand table u)
                            (setTimeout_wait (2 ^ k * 100) w)")
    show ?thesis
    proof (cases r)
      case (Inl e')
      with False k s Suc.prems have "e' = e"
        by (simp add: retry_loop_step)
      moreover from s Inl have "client (store w) (BatchWriteCommand table u) = (Inl e', store w1)"
        using dynamoDB_send_effects [OF s] by simp
      ultimately have "client (store w) (BatchWriteCommand table u) = (Inl e, store w1)"
        by simp
      with assms show ?thesis by (rule rejects_with_errorsD)
    next
      case (Inr resp)
      with False k s Suc.prems
      have rec: "retry_loop table client (unprocessed_of table resp) (k + 1) w1 = (Inl e, w')"
        by (simp add: retry_loop_step)
      from Suc.hyps(2) have m: "m = MAX_RETRIES - (k + 1)" by simp
      show ?thesis by (rule Suc.hyps(1) [OF m rec])
    qed
  qed
qed

lemma retry_loop_effects:
  assumes "retry_loop table client u k w = (res, w')" and "k \<le> MAX_RETRIES"
  shows "\<exists>n. k + n \<le> MAX_RETRIES
           \<and> waits (effects w') = waits (effects w) @ map (\<lambda>j. 2 ^ j * 100) [k..<k + n]
           \<and> length (resent_commands (effects w')) = length (resent_commands (effects w)) + n
           \<and> sent_commands (effects w') = sent_commands (effects w)
           \<and> (\<forall>u'. res = Inr u' \<longrightarrow> u' = [] \<or> k + n = MAX_RETRIES)"
  using assms
proof (induction "MAX_RETRIES - k" arbitrary: u k w)
  case 0
  then have "retry_loop table client u k w = (Inr u, w)"
    by (intro retry_loop_stop) simp
  with 0 have "res = Inr u" "w' = w" "k = MAX_RETRIES" by simp_all
  then show ?case by (intro exI [of _ 0]) simp
next
  case (Suc m)
  show ?case
  proof (cases "u = []")
    case True
    then have "retry_loop table client u k w = (Inr u, w)"
      by (intro retry_loop_stop) simp
    with Suc.prems True have "res = Inr []" "w' = w" by simp_all
    then show ?thesis using Suc.prems(2) by (intro exI [of _ 0]) simp
  next
    case False
    from Suc.hyps(2) have k: "k < MAX_RETRIES" by simp
    obtain r w1 where s: "dynamoDB_send Resent client (BatchWriteCommand table u)
                            (setTimeout_wait (2 ^ k * 100) w) = (r, w1)"
      by (cases "dynamoDB_send Resent client (BatchWriteCommand table u)
                            (setTimeout_wait (2 ^ k * 100) w)")
    have e1: "effects w1 = effects w @ [Waited (2 ^ k * 100), Resent (BatchWriteCommand table u)]"
      using dynamoDB_send_effects [OF s] by simp
    show ?thesis
    proof (cases r)
      case (Inl e)
      with False k s Suc.prems have "res = Inl e" "w' = w1"
        by (simp_all add: retry_loop_step)
      with e1 k show ?thesis by (intro exI [of _ 1]) simp
    next
      case (Inr resp)
      with False k s Suc.prems
      have rec: "retry_loop table client (unprocessed_of table resp) (k + 1) w1 = (res, w')"
        by (simp add: retry_loop_step)
      from Suc.hyps(2) have m: "m = MAX_RETRIES - (k + 1)" by simp
      from k have k1: "k + 1 \<le> MAX_RETRIES" by simp
      from Suc.hyps(1) [OF m rec k1] obtain n where
        n: "k + 1 + n \<le> MAX_RETRIES"
        "waits (effects w') = waits (effects w1) @ map (\<lambda>j. 2 ^ j * 100) [k + 1..<k + 1 + n]"
        "length (resent_commands (effects w')) = length (resent_commands (effects w1)) + n"
        "sent_commands (effects w') = sent_commands (effects w1)"
        "\<forall>u'. res = Inr u' \<longrightarrow> u' = [] \<or> k + 1 + n = MAX_RETRIES"
        by blast
      have "[k..<k + Suc n] = k # [k + 1..<k + 1 + n]"
        using upt_conv_Cons [of k "k + Suc n"] by simp
      with n e1 show ?thesis by (intro exI [of _ "Suc n"]) simp
    qed
  qed
qed

lemma chunk_try_cases:
  obtains (send_raises) e w1 where
      "dynamoDB_send Sent client (BatchWriteCommand table (map PutRequest chunk)) w = (Inl e, w1)"
      "chunk_try table client chunk results w = (Inl e, w1)"
  | (retry_raises) response w1 e w2 where
      "dynamoDB_send Sent client (BatchWriteCommand table (map PutRequest chunk)) w
         = (Inr response, w1)"
      "retry_loop table client (unprocessed_of table response) 0 w1 = (Inl e, w2)"
      "chunk_try table client chunk results w = (Inl e, w2)"
  | (settled) response w1 unprocessedItems w2 where
      "dynamoDB_send Sent client (BatchWriteCommand table (map PutRequest chunk)) w
         = (Inr response, w1)"
      "retry_loop table client (unprocessed_of table response) 0 w1 = (Inr unprocessedItems, w2)"
      "chunk_try table client chunk results w =
         (Inr (if unprocessedItems = []
               then results\<lparr>successful := successful results + int (length chunk),
                            failed := failed results\<rparr>
               else results\<lparr>successful := successful results + int (length chunk)
                                             - int (length unprocessedItems),
                            failed := failed results + int (length unprocessedItems),
                            errors := errors results @
                              [nat_to_string (length unprocessedItems)
                               @ '' items failed after retries'']\<rparr>), w2)"
proof -
  obtain r w1 where s:
    "dynamoDB_send Sent client (BatchWriteCommand table (map PutRequest chunk)) w = (r, w1)"
    by (cases "dynamoDB_send Sent client (BatchWriteCommand table (map PutRequest chunk)) w")
  show thesis
  proof (cases r)
    case (Inl e)
    with s have "chunk_try table client chunk results w = (Inl e, w1)"
      by (simp add: chunk_try_def)
    with s Inl show thesis using send_raises by simp
  next
    case (Inr response)
    obtain r2 w2 where t: "retry_loop table client (unprocessed_of table response) 0 w1 = (r2, w2)"
      by (cases "retry_loop table client (unprocessed_of table response) 0 w1")
    show thesis
    proof (cases r2)
      case (Inl e)
      with s t Inr have "chunk_try table client chunk results w = (Inl e, w2)"
        by (simp add: chunk_try_def)
      with s t Inr Inl show thesis using retry_raises by simp
    next
      case inr: (Inr unprocessedItems)
      with s t Inr have "chunk_try table client chunk results w =
         (Inr (if unprocessedItems = []
               then results\<lparr>successful := successful results + int (length chunk),
                            failed := failed results\<rparr>
               else results\<lparr>successful := successful results + int (length chunk)
                                             - int (length unprocessedItems),
                            failed := failed results + int (length unprocessedItems),
                            errors := errors results @
                              [nat_to_string (length unprocessedItems)
                               @ '' items failed after retries'']\<rparr>), w2)"
        by (simp add: chunk_try_def Let_def)
      with s t Inr inr show thesis using settled by simp
    qed
  qed
qed


lemma chunk_try_sent:
  assumes "chunk_try table client chunk results w = (res, w')"
  shows "sent_commands (effects w') =
           sent_commands (effects w) @ [BatchWriteCommand table (map PutRequest chunk)]"
proof (cases rule: chunk_try_cases [of client table chunk w results])
  case (send_raises e w1)
  with assms have "w' = w1" by simp
  with dynamoDB_send_effects [OF send_raises(1)] show ?thesis by simp
next
  case (retry_raises response w1 e w2)
  with assms have "w' = w2" by simp
  with dynamoDB_send_effects [OF retry_raises(1)] retry_loop_effects [OF retry_raises(2)]
  show ?thesis by auto
next
  case (settled response w1 unprocessedItems w2)
  with assms have "w' = w2" by simp
  with dynamoDB_send_effects [OF settled(1)] retry_loop_effects [OF settled(2)]
  show ?thesis by auto
qed

lemma chunk_try_raises:
  assumes "rejects_with_errors client" and "chunk_try table client chunk results w = (Inl e, w')"
  shows "\<exists>nm msg. e = Error nm msg"
proof (cases rule: chunk_try_cases [of client table chunk w results])
  case (send_raises e1 w1)
  with assms(2) have "e1 = e" by simp
  with dynamoDB_send_effects [OF send_raises(1)]
  have "client (store w) (BatchWriteCommand table (map PutRequest chunk)) = (Inl e, store w1)"
    by simp
  with assms(1) show ?thesis by (rule rejects_with_errorsD)
next
  case (retry_raises response w1 e2 w2)
  with assms(2) have "e2 = e" by simp
  with retry_raises(2) have "retry_loop table client (unprocessed_of table response) 0 w1 = (Inl e, w2)"
    by simp
  with assms(1) show ?thesis by (rule retry_loop_raises)
next
  case (settled response w1 unprocessedItems w2)
  with assms(2) show ?thesis by simp
qed

lemma chunk_try_total:
  assumes "chunk_try table client chunk results w = (Inr results', w')"
  shows "successful results' + failed results' =
           successful results + failed results + int (length chunk)"
proof (cases rule: chunk_try_cases [of client table chunk w results])
  case (send_raises e w1)
  with assms show ?thesis by simp
next
  case (retry_raises response w1 e w2)
  with assms show ?thesis by simp
next
  case (settled response w1 unprocessedItems w2)
  with assms show ?thesis by (auto split: if_splits)
qed

lemma write_chunk_hard_exception:
  assumes "chunk_try table client chunk results w = (Inl (Error nm msg), w')"
  shows "write_chunk table client chunk results w =
           (Inr (results\<lparr>failed := failed results + int (length chunk),
                         errors := errors results @ [msg]\<rparr>), w')"
  using assms by (simp add: write_chunk_def chunk_catch_def)

lemma write_chunk_sent:
  assumes "write_chunk table client chunk results w = (res, w')"
  shows "sent_commands (effects w') =
           sent_commands (effects w) @ [BatchWriteCommand table (map PutRequest chunk)]"
proof -
  obtain r1 w1 where t: "chunk_try table client chunk results w = (r1, w1)"
    by (cases "chunk_try table client chunk results w")
  with assms have "w' = w1"
    by (cases r1) (simp_all add: write_chunk_def)
  with chunk_try_sent [OF t] show ?thesis by simp
qed

lemma write_chunk_total:
  assumes "write_chunk table client chunk results w = (Inr results', w')"
  shows "successful results' + failed results' =
           successful results + failed results + int (length chunk)"
proof -
  obtain r1 w1 where t: "chunk_try table client chunk results w = (r1, w1)"
    by (cases "chunk_try table client chunk results w")
  show ?thesis
  proof (cases r1)
    case (Inr r)
    with t assms have "r = results'" by (simp add: write_chunk_def)
    with t Inr chunk_try_total show ?thesis by blast
  next
    case (Inl e)
    with t assms have "chunk_catch chunk results e = Inr results'"
      by (simp add: write_chunk_def)
    then show ?thesis
      by (cases "error_message e") (auto simp: chunk_catch_def)
  qed
qed


lemma write_chunk_returns:
  assumes "rejects_with_errors client"
  shows "\<exists>results' w'. write_chunk table client chunk results w = (Inr results', w')"
proof -
  obtain r1 w1 where t: "chunk_try table client chunk results w = (r1, w1)"
    by (cases "chunk_try table client chunk results w")
  show ?thesis
  proof (cases r1)
    case (Inr r)
    with t show ?thesis by (simp add: write_chunk_def)
  next
    case (Inl e1)
    with t chunk_try_raises [OF assms] obtain nm msg where "e1 = Error nm msg" by blast
    with t Inl show ?thesis by (simp add: write_chunk_def chunk_catch_def)
  qed
qed

lemma batch_loop_stop:
  "length items \<le> i \<Longrightarrow> batch_loop table client items i results w = (Inr results, w)"
  by (simp add: batch_loop.simps [of table client items i results w])

lemma batch_loop_step:
  "i < length items \<Longrightarrow>
     batch_loop table client items i results w =
       (case write_chunk table client (take MAX_BATCH_SIZE (drop i items)) results w of
          (Inl e, w') \<Rightarrow> (Inl e, w')
        | (Inr results', w') \<Rightarrow> batch_loop table client items (i + MAX_BATCH_SIZE) results' w')"
  by (subst batch_loop.simps) (simp add: slice_chunk del: of_nat_add)

lemma batch_loop_result:
  assumes "batch_loop table client items i results w = (Inr results', w')"
  shows "sent_commands (effects w') =
           sent_commands (effects w)
           @ map (batch_command table) (chunks MAX_BATCH_SIZE (drop i items))
         \<and> successful results' + failed results' =
             successful results + failed results + int (length items - i)"
  using assms
proof (induction "length items - i" arbitrary: i results w rule: less_induct)
  case less
  show ?case
  proof (cases "i < length items")
    case False
    then have "batch_loop table client items i results w = (Inr results, w)"
      by (intro batch_loop_stop) simp
    with less.prems False show ?thesis by simp
  next
    case True
    let ?chunk = "take MAX_BATCH_SIZE (drop i items)"
    obtain r1 w1 where c: "write_chunk table client ?chunk results w = (r1, w1)"
      by (cases "write_chunk table client ?chunk results w")
    show ?thesis
    proof (cases r1)
      case (Inl e)
      with True c less.prems show ?thesis by (simp add: batch_loop_step)
    next
      case (Inr r)
      with True c less.prems
      have rec: "batch_loop table client items (i + MAX_BATCH_SIZE) r w1 = (Inr results', w')"
        by (simp add: batch_loop_step)
      from True have dec: "length items - (i + MAX_BATCH_SIZE) < length items - i"
        by (simp add: MAX_BATCH_SIZE_def)
      note ih = less.hyps [OF dec rec]
      from c Inr have t: "successful r + failed r =
          successful results + failed results + int (length ?chunk)"
        by (intro write_chunk_total) simp
      have s: "sent_commands (effects w1) =
          sent_commands (effects w) @ [batch_command table ?chunk]"
        using write_chunk_sent [OF c] by (simp add: batch_command_def)
      from True have ne: "drop i items \<noteq> []" by simp
      have ch: "chunks MAX_BATCH_SIZE (drop i items) =
          ?chunk # chunks MAX_BATCH_SIZE (drop (i + MAX_BATCH_SIZE) items)"
        using chunks_step [OF _ ne, of MAX_BATCH_SIZE]
        by (simp add: MAX_BATCH_SIZE_def add.commute)
      have len: "int (length ?chunk) + int (length items - (i + MAX_BATCH_SIZE))
          = int (length items - i)"
        using True by (simp add: min_def)
      from ih s t ch len show ?thesis by simp
    qed
  qed
qed


lemma batch_loop_returns:
  assumes "rejects_with_errors client"
  shows "\<exists>results' w'. batch_loop table client items i results w = (Inr results', w')"
proof (induction "length items - i" arbitrary: i results w rule: less_induct)
  case less
  show ?case
  proof (cases "i < length items")
    case False
    then have "batch_loop table client items i results w = (Inr results, w)"
      by (intro batch_loop_stop) simp
    then show ?thesis by simp
  next
    case True
    let ?chunk = "take MAX_BATCH_SIZE (drop i items)"
    from write_chunk_returns [OF assms] obtain r w1 where
      c: "write_chunk table client ?chunk results w = (Inr r, w1)" by blast
    from True have dec: "length items - (i + MAX_BATCH_SIZE) < length items - i"
      by (simp add: MAX_BATCH_SIZE_def)
    from less.hyps [OF dec] obtain results' w' where
      "batch_loop table client items (i + MAX_BATCH_SIZE) r w1 = (Inr results', w')" by blast
    with True c show ?thesis by (simp add: batch_loop_step)
  qed
qed

subsection \<open>Groups and totals (claim C1)\<close>

text \<open>
  Claim C1. For every list of N records (the empty list included) given to the batch
  writer:
  \<^item> every BatchOutcome it returns has \<open>successful + failed = N\<close>, and the commands it has
    then sent for the first time are, in order, one batched put request for each group
    of the partition of the records into contiguous groups of at most 25;
  \<^item> it does return a BatchOutcome when the failing requests of the client reject with
    Error objects;
  \<^item> the groups concatenated are the input list, there are \<open>(N + 24) div 25\<close> of them,
    which is N / 25 rounded up, and each has between 1 and 25 records.
\<close>

theorem batch_writer_groups_and_totals:
  "(\<forall>results w'. batchWriteToDynamoDB table client items w = (Inr results, w') \<longrightarrow>
       successful results + failed results = int (length items)
       \<and> sent_commands (effects w') =
           sent_commands (effects w) @ map (batch_command table) (chunks MAX_BATCH_SIZE items))
   \<and> (rejects_with_errors client \<longrightarrow>
        (\<exists>results w'. batchWriteToDynamoDB table client items w = (Inr results, w')))
   \<and> concat (chunks MAX_BATCH_SIZE items) = items
   \<and> length (chunks MAX_BATCH_SIZE items) = (length items + 24) div 25
   \<and> (\<forall>g \<in> set (chunks MAX_BATCH_SIZE items). 0 < length g \<and> length g \<le> 25)"
proof (intro conjI allI impI ballI)
  fix results w'
  assume "batchWriteToDynamoDB table client items w = (Inr results, w')"
  then have r: "batch_loop table client items 0 \<lparr>successful = 0, failed = 0, errors = []\<rparr> w
      = (Inr results, w')"
    by (simp add: batchWriteToDynamoDB_def)
  from batch_loop_result [OF r]
  show "successful results + failed results = int (length items)"
    and "sent_commands (effects w') =
           sent_commands (effects w) @ map (batch_command table) (chunks MAX_BATCH_SIZE items)"
    by simp_all
next
  assume "rejects_with_errors client"
  from batch_loop_returns [OF this]
  show "\<exists>results w'. batchWriteToDynamoDB table client items w = (Inr results, w')"
    by (simp add: batchWriteToDynamoDB_def)
next
  show "concat (chunks MAX_BATCH_SIZE items) = items"
    by (rule concat_chunks) (simp add: MAX_BATCH_SIZE_def)
  show "length (chunks MAX_BATCH_SIZE items) = (length items + 24) div 25"
    using length_chunks [of MAX_BATCH_SIZE items] by (simp add: MAX_BATCH_SIZE_def)
next
  fix g assume "g \<in> set (chunks MAX_BATCH_SIZE items)"
  from chunk_sizes [OF this] show "0 < length g" and "length g \<le> 25"
    by (simp_all add: MAX_BATCH_SIZE_def)
qed

text \<open>An instance: 26 records are written as a group of 25 and a group of 1.\<close>

theorem batch_writer_groups_and_totals_witness:
  "\<exists>results w'. batchWriteToDynamoDB ''issues'' accepting_client items26
                    \<lparr>store = 0, effects = []\<rparr> = (Inr results, w')
     \<and> successful results + failed results = 26
     \<and> sent_commands (effects w') =
          [batch_command ''issues'' (take 25 items26), batch_command ''issues'' [26]]"
proof -
  let ?w = "\<lparr>store = 0 :: nat, effects = [] :: nat effect list\<rparr>"
  have h: "rejects_with_errors (accepting_client :: (nat, nat) client)"
    by (simp add: rejects_with_errors_def accepting_client_def)
  have c: "chunks MAX_BATCH_SIZE items26 = [take 25 items26, [26]]"
    by (simp add: chunks.simps MAX_BATCH_SIZE_def items26_def)
  note t = batch_writer_groups_and_totals [of "''issues''" accepting_client items26 ?w]
  from t [THEN conjunct2, THEN conjunct1, THEN mp, OF h] obtain results w' where
    r: "batchWriteToDynamoDB ''issues'' accepting_client items26 ?w = (Inr results, w')"
    by blast
  from t [THEN conjunct1, rule_format, OF r]
  have "successful results + failed results = 26"
    and "sent_commands (effects w') =
          [batch_command ''issues'' (take 25 items26), batch_command ''issues'' [26]]"
    unfolding c by (simp_all add: items26_def)
  with r show ?thesis by blast
qed

subsection \<open>Retries with backoff (claim C2)\<close>

lemma retry_loop_constant:
  assumes c: "\<forall>s cmd. \<exists>resp s'. client s cmd = (Inr resp, s') \<and> unprocessed_of table resp = u"
    and u: "u \<noteq> []" and k: "k \<le> MAX_RETRIES"
  shows "fst (retry_loop table client u k w) = Inr u
       \<and> effects (snd (retry_loop table client u k w)) =
           effects w @ concat (map (\<lambda>j. [Waited (2 ^ j * 100), Resent (BatchWriteCommand table u)])
                                   [k..<MAX_RETRIES])"
  using k
proof (induction "MAX_RETRIES - k" arbitrary: k w)
  case 0
  then have "retry_loop table client u k w = (Inr u, w)"
    by (intro retry_loop_stop) simp
  with 0 show ?case by simp
next
  case (Suc m)
  from Suc.hyps(2) have k: "k < MAX_RETRIES" by simp
  from c obtain resp s' where
    r: "client (store (setTimeout_wait (2 ^ k * 100) w)) (BatchWriteCommand table u) = (Inr resp, s')"
    and up: "unprocessed_of table resp = u"
    by blast
  define w1 where "w1 = \<lparr>store = s', effects = effects (setTimeout_wait (2 ^ k * 100) w)
      @ [Resent (BatchWriteCommand table u)]\<rparr>"
  from r have s: "dynamoDB_send Resent client (BatchWriteCommand table u)
                    (setTimeout_wait (2 ^ k * 100) w) = (Inr resp, w1)"
    by (simp add: dynamoDB_send_def w1_def)
  have step: "retry_loop table client u k w = retry_loop table client u (k + 1) w1"
    using u k s up by (simp add: retry_loop_step)
  from Suc.hyps(2) have m: "m = MAX_RETRIES - (k + 1)" by simp
  from k have k1: "k + 1 \<le> MAX_RETRIES" by simp
  have "[k..<MAX_RETRIES] = k # [k + 1..<MAX_RETRIES]"
    using upt_conv_Cons [OF k] by simp
  with Suc.hyps(1) [OF m k1, of w1] step show ?case
    by (simp add: w1_def)
qed

lemma write_chunk_constant:
  assumes c: "\<forall>s cmd. \<exists>resp s'. client s cmd = (Inr resp, s') \<and> unprocessed_of table resp = u"
    and u: "u \<noteq> []"
  shows "fst (write_chunk table client chunk results w) =
           Inr (results\<lparr>successful := successful results + int (length chunk) - int (length u),
                        failed := failed results + int (length u),
                        errors := errors results @
                          [nat_to_string (length u) @ '' items failed after retries'']\<rparr>)
       \<and> effects (snd (write_chunk table client chunk results w)) =
           effects w @ [Sent (batch_command table chunk),
                        Waited 100, Resent (BatchWriteCommand table u),
                        Waited 200, Resent (BatchWriteCommand table u),
                        Waited 400, Resent (BatchWriteCommand table u)]"
proof -
  from c obtain resp s' where
    r: "client (store w) (BatchWriteCommand table (map PutRequest chunk)) = (Inr resp, s')"
    and up: "unprocessed_of table resp = u"
    by blast
  define w1 where "w1 = \<lparr>store = s', effects = effects w @ [Sent (batch_command table chunk)]\<rparr>"
  from r have s: "dynamoDB_send Sent client (BatchWriteCommand table (map PutRequest chunk)) w
                    = (Inr resp, w1)"
    by (simp add: dynamoDB_send_def w1_def batch_command_def)
  obtain r2 w2 where t: "retry_loop table client u 0 w1 = (r2, w2)"
    by (cases "retry_loop table client u 0 w1")
  have "[0..<MAX_RETRIES] = [0, 1, 2]"
    by (simp add: MAX_RETRIES_def upt_rec)
  with retry_loop_constant [OF c u, of 0 w1] t
  have r2: "r2 = Inr u"
    and e2: "effects w2 = effects w1 @ [Waited 100, Resent (BatchWriteCommand table u),
                        Waited 200, Resent (BatchWriteCommand table u),
                        Waited 400, Resent (BatchWriteCommand table u)]"
    by simp_all
  from s t up r2 u have "chunk_try table client chunk results w =
      (Inr (results\<lparr>successful := successful results + int (length chunk) - int (length u),
                        failed := failed results + int (length u),
                        errors := errors results @
                          [nat_to_string (length u) @ '' items failed after retries'']\<rparr>), w2)"
    by (simp add: chunk_try_def Let_def)
  then show ?thesis
    using e2 by (simp add: write_chunk_def w1_def)
qed

lemma retry_loop_from_start:
  assumes "retry_loop table client u 0 w = (res, w')"
  shows "\<exists>n\<le>3. waits (effects w') = waits (effects w) @ take n [100, 200, 400]
           \<and> length (resent_commands (effects w')) = length (resent_commands (effects w)) + n
           \<and> sent_commands (effects w') = sent_commands (effects w)
           \<and> (\<forall>u'. res = Inr u' \<longrightarrow> u' = [] \<or> n = 3)"
proof -
  from retry_loop_effects [OF assms] obtain n where
    n: "0 + n \<le> MAX_RETRIES"
      "waits (effects w') = waits (effects w) @ map (\<lambda>j. 2 ^ j * 100) [0..<0 + n]"
      "length (resent_commands (effects w')) = length (resent_commands (effects w)) + n"
      "sent_commands (effects w') = sent_commands (effects w)"
      "\<forall>u'. res = Inr u' \<longrightarrow> u' = [] \<or> 0 + n = MAX_RETRIES"
    by auto
  from n(1) have "n = 0 \<or> n = 1 \<or> n = 2 \<or> n = 3"
    by (auto simp: MAX_RETRIES_def)
  then have "map (\<lambda>j. 2 ^ j * 100) [0..<0 + n] = take n [100, 200, 400 :: nat]"
    by (auto simp: upt_rec)
  with n show ?thesis
    by (intro exI [of _ n]) (simp add: MAX_RETRIES_def)
qed

text \<open>
  Claim C2. In four parts, for every table, client and world:
  \<^item> while the unprocessed list is non-empty and the attempt counter \<open>k\<close> is below 3, the
    loop waits \<open>2 ^ k * 100\<close> milliseconds, resubmits exactly the unprocessed items as one
    batched request, and goes on with the list this request returns and the counter
    \<open>k + 1\<close> (or leaves with the exception of the request);
  \<^item> it stops as soon as the list is empty or the counter has reached 3;
  \<^item> started at counter 0 it makes \<open>n \<le> 3\<close> retries, its waits are the first \<open>n\<close> of 100,
    200, 400, in this order, and when it returns a list this list is empty or
    \<open>n = 3\<close>;
  \<^item> with a store that answers every request with the same non-empty list \<open>u\<close> of
    unprocessed items, a group is submitted once, then \<open>u\<close> is resubmitted three times
    after waits of 100, 200 and 400; the \<open>length u\<close> items are added to the failed
    total, the rest of the group to the successful total, and the message
    \<^verbatim>\<open><length u> items failed after retries\<close> is appended to the error list.
\<close>

theorem retry_policy:
  "(\<forall>u k w. u \<noteq> [] \<and> k < MAX_RETRIES \<longrightarrow>
       retry_loop table client u k w =
         (case dynamoDB_send Resent client (BatchWriteCommand table u)
                 (setTimeout_wait (2 ^ k * 100) w) of
            (Inl e, w') \<Rightarrow> (Inl e, w')
          | (Inr resp, w') \<Rightarrow> retry_loop table client (unprocessed_of table resp) (k + 1) w'))
   \<and> (\<forall>u k w. u = [] \<or> MAX_RETRIES \<le> k \<longrightarrow> retry_loop table client u k w = (Inr u, w))
   \<and> (\<forall>u w res w'. retry_loop table client u 0 w = (res, w') \<longrightarrow>
         (\<exists>n\<le>3. waits (effects w') = waits (effects w) @ take n [100, 200, 400]
            \<and> length (resent_commands (effects w')) = length (resent_commands (effects w)) + n
            \<and> sent_commands (effects w') = sent_commands (effects w)
            \<and> (\<forall>u'. res = Inr u' \<longrightarrow> u' = [] \<or> n = 3)))
   \<and> (\<forall>u chunk results w.
         u \<noteq> [] \<and> (\<forall>s cmd. \<exists>resp s'. client s cmd = (Inr resp, s') \<and> unprocessed_of table resp = u)
         \<longrightarrow> fst (write_chunk table client chunk results w) =
               Inr (results\<lparr>successful := successful results + int (length chunk) - int (length u),
                            failed := failed results + int (length u),
                            errors := errors results @
                              [nat_to_string (length u) @ '' items failed after retries'']\<rparr>)
             \<and> effects (snd (write_chunk table client chunk results w)) =
                 effects w @ [Sent (batch_command table chunk),
                              Waited 100, Resent (BatchWriteCommand table u),
                              Waited 200, Resent (BatchWriteCommand table u),
                              Waited 400, Resent (BatchWriteCommand table u)])"
proof (intro conjI allI impI)
  fix u :: "'a put_request list" and k and w :: "('b, 'a) world"
  assume "u \<noteq> [] \<and> k < MAX_RETRIES"
  then show "retry_loop table client u k w =
         (case dynamoDB_send Resent client (BatchWriteCommand table u)
                 (setTimeout_wait (2 ^ k * 100) w) of
            (Inl e, w') \<Rightarrow> (Inl e, w')
          | (Inr resp, w') \<Rightarrow> retry_loop table client (unprocessed_of table resp) (k + 1) w')"
    by (simp add: retry_loop_step)
next
  fix u :: "'a put_request list" and k and w :: "('b, 'a) world"
  assume "u = [] \<or> MAX_RETRIES \<le> k"
  then show "retry_loop table client u k w = (Inr u, w)"
    by (rule retry_loop_stop)
next
  fix u :: "'a put_request list" and w w' :: "('b, 'a) world" and res
  assume "retry_loop table client u 0 w = (res, w')"
  then show "\<exists>n\<le>3. waits (effects w') = waits (effects w) @ take n [100, 200, 400]
            \<and> length (resent_commands (effects w')) = length (resent_commands (effects w)) + n
            \<and> sent_commands (effects w') = sent_commands (effects w)
            \<and> (\<forall>u'. res = Inr u' \<longrightarrow> u' = [] \<or> n = 3)"
    by (rule retry_loop_from_start)
next
  fix u :: "'a put_request list" and chunk results and w :: "('b, 'a) world"
  assume a: "u \<noteq> [] \<and> (\<forall>s cmd. \<exists>resp s'. client s cmd = (Inr resp, s') \<and> unprocessed_of table resp = u)"
  then have c: "\<forall>s cmd. \<exists>resp s'. client s cmd = (Inr resp, s') \<and> unprocessed_of table resp = u"
    and u: "u \<noteq> []" by simp_all
  from write_chunk_constant [OF c u]
  show "fst (write_chunk table client chunk results w) =
               Inr (results\<lparr>successful := successful results + int (length chunk) - int (length u),
                            failed := failed results + int (length u),
                            errors := errors results @
                              [nat_to_string (length u) @ '' items failed after retries'']\<rparr>)"
    and "effects (snd (write_chunk table client chunk results w)) =
                 effects w @ [Sent (batch_command table chunk),
                              Waited 100, Resent (BatchWriteCommand table u),
                              Waited 200, Resent (BatchWriteCommand table u),
                              Waited 400, Resent (BatchWriteCommand table u)]"
    by simp_all
qed

text \<open>
  An instance: a group of five records and a store that returns the same two items as
  unprocessed on every attempt.
\<close>

theorem retry_policy_witness:
  "fst (write_chunk ''issues'' same_two_rejected_client [1, 2, 3, 4, 5]
          \<lparr>successful = 0, failed = 0, errors = []\<rparr> \<lparr>store = 0, effects = []\<rparr>)
     = Inr \<lparr>successful = 3, failed = 2, errors = [''2 items failed after retries'']\<rparr>
   \<and> effects (snd (write_chunk ''issues'' same_two_rejected_client [1, 2, 3, 4, 5]
          \<lparr>successful = 0, failed = 0, errors = []\<rparr> \<lparr>store = 0, effects = []\<rparr>))
     = [Sent (batch_command ''issues'' [1, 2, 3, 4, 5]),
        Waited 100, Resent (BatchWriteCommand ''issues'' [PutRequest 2, PutRequest 4]),
        Waited 200, Resent (BatchWriteCommand ''issues'' [PutRequest 2, PutRequest 4]),
        Waited 400, Resent (BatchWriteCommand ''issues'' [PutRequest 2, PutRequest 4])]"
proof -
  have h: "[PutRequest 2, PutRequest 4] \<noteq> ([] :: nat put_request list)
      \<and> (\<forall>s cmd. \<exists>resp s'. same_two_rejected_client s cmd = (Inr resp, s')
              \<and> unprocessed_of ''issues'' resp = [PutRequest 2, PutRequest 4])"
    by (simp add: same_two_rejected_client_def unprocessed_of_def)
  from retry_policy [of "''issues''" same_two_rejected_client]
  have "\<forall>u chunk results w.
         u \<noteq> [] \<and> (\<forall>s cmd. \<exists>resp s'. same_two_rejected_client s cmd = (Inr resp, s')
                        \<and> unprocessed_of ''issues'' resp = u)
         \<longrightarrow> fst (write_chunk ''issues'' same_two_rejected_client chunk results w) =
               Inr (results\<lparr>successful := successful results + int (length chunk) - int (length u),
                            failed := failed results + int (length u),
                            errors := errors results @
                              [nat_to_string (length u) @ '' items failed after retries'']\<rparr>)
             \<and> effects (snd (write_chunk ''issues'' same_two_rejected_client chunk results w)) =
                 effects w @ [Sent (batch_command ''issues'' chunk),
                              Waited 100, Resent (BatchWriteCommand ''issues'' u),
                              Waited 200, Resent (BatchWriteCommand ''issues'' u),
                              Waited 400, Resent (BatchWriteCommand ''issues'' u)]"
    by (elim conjE)
  from this [rule_format, OF h, of "[1, 2, 3, 4, 5]"
      "\<lparr>successful = 0, failed = 0, errors = []\<rparr>" "\<lparr>store = 0, effects = []\<rparr>"]
  show ?thesis
    by (simp add: nat_to_string.simps digit_char_def)
qed

subsection \<open>Hard exceptions (claim C5)\<close>

lemma chunk_try_send_raises:
  assumes "client (store w) (batch_command table chunk) = (Inl e, s')"
  shows "fst (chunk_try table client chunk results w) = Inl e"
  using assms by (simp add: chunk_try_def dynamoDB_send_def batch_command_def)

lemma batch_loop_hard_exception:
  assumes "i < length items"
    and "chunk_try table client (slice items (int i) (int (i + MAX_BATCH_SIZE))) results w
           = (Inl (Error nm msg), w')"
  shows "batch_loop table client items i results w =
           batch_loop table client items (i + MAX_BATCH_SIZE)
             (results\<lparr>failed := failed results
                                  + int (length (slice items (int i) (int (i + MAX_BATCH_SIZE)))),
                       errors := errors results @ [msg]\<rparr>) w'"
proof -
  have sl: "slice items (int i) (int (i + MAX_BATCH_SIZE)) = take MAX_BATCH_SIZE (drop i items)"
    using assms(1) by (intro slice_chunk) simp
  from assms(2) have "write_chunk table client (take MAX_BATCH_SIZE (drop i items)) results w =
      (Inr (results\<lparr>failed := failed results + int (length (take MAX_BATCH_SIZE (drop i items))),
                   errors := errors results @ [msg]\<rparr>), w')"
    unfolding sl by (rule write_chunk_hard_exception)
  with assms(1) show ?thesis
    unfolding sl by (simp add: batch_loop_step)
qed

text \<open>
  Claim C5. In four parts, for every table and client:
  \<^item> when the \<^verbatim>\<open>try\<close> block of a group raises an exception with a message (at the first
    submission or at a resubmission), the size of the whole group is added to the failed
    total, the message is appended to the error list, and the group ends normally;
  \<^item> the loop over the groups then goes on with the next group exactly as after any
    other group: from the next offset, with these totals and in the world the exception
    left;
  \<^item> a submission that the client rejects is such an exception of the \<^verbatim>\<open>try\<close> block;
  \<^item> with a client whose failing requests reject with Error objects, no exception
    escapes the batch writer, and every group of the partition is submitted.
\<close>

theorem hard_exception_fails_group:
  "(\<forall>chunk results w nm msg w'.
       chunk_try table client chunk results w = (Inl (Error nm msg), w') \<longrightarrow>
       write_chunk table client chunk results w =
         (Inr (results\<lparr>failed := failed results + int (length chunk),
                      errors := errors results @ [msg]\<rparr>), w'))
   \<and> (\<forall>items i results w nm msg w'.
         i < length items
         \<and> chunk_try table client (slice items (int i) (int (i + MAX_BATCH_SIZE))) results w
             = (Inl (Error nm msg), w') \<longrightarrow>
         batch_loop table client items i results w =
           batch_loop table client items (i + MAX_BATCH_SIZE)
             (results\<lparr>failed := failed results
                                  + int (length (slice items (int i) (int (i + MAX_BATCH_SIZE)))),
                       errors := errors results @ [msg]\<rparr>) w')
   \<and> (\<forall>chunk results w e s'.
         client (store w) (batch_command table chunk) = (Inl e, s') \<longrightarrow>
         fst (chunk_try table client chunk results w) = Inl e)
   \<and> (rejects_with_errors client \<longrightarrow>
         (\<forall>items w. \<exists>results w'.
            batchWriteToDynamoDB table client items w = (Inr results, w')
            \<and> sent_commands (effects w') =
                sent_commands (effects w) @ map (batch_command table) (chunks MAX_BATCH_SIZE items)))"
proof (intro conjI allI impI)
  fix chunk results and w w' :: "('b, 'a) world" and nm msg
  assume "chunk_try table client chunk results w = (Inl (Error nm msg), w')"
  then show "write_chunk table client chunk results w =
         (Inr (results\<lparr>failed := failed results + int (length chunk),
                      errors := errors results @ [msg]\<rparr>), w')"
    by (rule write_chunk_hard_exception)
next
  fix items i results and w w' :: "('b, 'a) world" and nm msg
  assume "i < length items
         \<and> chunk_try table client (slice items (int i) (int (i + MAX_BATCH_SIZE))) results w
             = (Inl (Error nm msg), w')"
  then show "batch_loop table client items i results w =
           batch_loop table client items (i + MAX_BATCH_SIZE)
             (results\<lparr>failed := failed results
                                  + int (length (slice items (int i) (int (i + MAX_BATCH_SIZE)))),
                       errors := errors results @ [msg]\<rparr>) w'"
    by (intro batch_loop_hard_exception) simp_all
next
  fix chunk results and w :: "('b, 'a) world" and e s'
  assume "client (store w) (batch_command table chunk) = (Inl e, s')"
  then show "fst (chunk_try table client chunk results w) = Inl e"
    by (rule chunk_try_send_raises)
next
  fix items and w :: "('b, 'a) world"
  assume h: "rejects_with_errors client"
  from batch_loop_returns [OF h] obtain results w' where
    r: "batch_loop table client items 0 \<lparr>successful = 0, failed = 0, errors = []\<rparr> w
          = (Inr results, w')"
    by blast
  from batch_loop_result [OF r] r
  show "\<exists>results w'.
            batchWriteToDynamoDB table client items w = (Inr results, w')
            \<and> sent_commands (effects w') =
                sent_commands (effects w) @ map (batch_command table) (chunks MAX_BATCH_SIZE items)"
    by (simp add: batchWriteToDynamoDB_def)
qed

text \<open>
  An instance: 26 records, the submission of the first group of 25 fails with the message
  \<^verbatim>\<open>throttled\<close>, and the second group with the one remaining record is still written.
\<close>

theorem hard_exception_fails_group_witness:
  "batchWriteToDynamoDB ''issues'' first_call_throttled_client items26 \<lparr>store = 0, effects = []\<rparr>
     = (Inr \<lparr>successful = 1, failed = 25, errors = [''throttled'']\<rparr>,
        \<lparr>store = 2,
         effects = [Sent (batch_command ''issues'' (take 25 items26)),
                    Sent (batch_command ''issues'' [26 :: nat])]\<rparr>)"
proof -
  let ?w0 = "\<lparr>store = 0 :: nat, effects = [] :: nat effect list\<rparr>"
  let ?r0 = "\<lparr>successful = 0, failed = 0, errors = []\<rparr>"
  let ?w1 = "\<lparr>store = 1 :: nat, effects = [Sent (batch_command ''issues'' (take 25 items26))]\<rparr>"
  have sl: "slice items26 (int 0) (int (0 + MAX_BATCH_SIZE)) = take 25 items26"
    by (simp add: slice_def slice_index_def MAX_BATCH_SIZE_def items26_def)
  have h: "0 < length items26
      \<and> chunk_try ''issues'' first_call_throttled_client
           (slice items26 (int 0) (int (0 + MAX_BATCH_SIZE))) ?r0 ?w0
          = (Inl (Error ''ProvisionedThroughputExceededException'' ''throttled''), ?w1)"
    unfolding sl
    by (simp add: chunk_try_def dynamoDB_send_def first_call_throttled_client_def
        batch_command_def items26_def)
  from hard_exception_fails_group [of "''issues''" first_call_throttled_client]
  have "\<forall>items i results w nm msg w'.
         i < length items
         \<and> chunk_try ''issues'' first_call_throttled_client
               (slice items (int i) (int (i + MAX_BATCH_SIZE))) results w
             = (Inl (Error nm msg), w') \<longrightarrow>
         batch_loop ''issues'' first_call_throttled_client items i results w =
           batch_loop ''issues'' first_call_throttled_client items (i + MAX_BATCH_SIZE)
             (results\<lparr>failed := failed results
                                  + int (length (slice items (int i) (int (i + MAX_BATCH_SIZE)))),
                       errors := errors results @ [msg]\<rparr>) w'"
    by (elim conjE)
  from this [rule_format, OF h]
  have "batch_loop ''issues'' first_call_throttled_client items26 0 ?r0 ?w0 =
      batch_loop ''issues'' first_call_throttled_client items26 25
        \<lparr>successful = 0, failed = 25, errors = [''throttled'']\<rparr> ?w1"
    unfolding sl by (simp add: MAX_BATCH_SIZE_def items26_def)
  also have "\<dots> = (Inr \<lparr>successful = 1, failed = 25, errors = [''throttled'']\<rparr>,
        \<lparr>store = 2,
         effects = [Sent (batch_command ''issues'' (take 25 items26)),
                    Sent (batch_command ''issues'' [26 :: nat])]\<rparr>)"
    by (simp add: batch_loop_step batch_loop_stop write_chunk_def chunk_try_def dynamoDB_send_def
        first_call_throttled_client_def unprocessed_of_def retry_loop_stop batch_command_def
        MAX_BATCH_SIZE_def items26_def)
  finally show ?thesis
    by (simp add: batchWriteToDynamoDB_def)
qed

section \<open>Per-item writer (claim C6)\<close>

lemma write_item_eq:
  "write_item table client item w =
     (settle item (fst (client (store w) (PutCommand table item))),
      \<lparr>store = snd (client (store w) (PutCommand table item)),
       effects = effects w @ [put_command table item]\<rparr>)"
proof (cases "client (store w) (PutCommand table item)")
  case (Pair r s')
  show ?thesis
  proof (cases r)
    case (Inr resp)
    with Pair show ?thesis
      by (simp add: write_item_def dynamoDB_send_def settle_def put_command_def)
  next
    case (Inl e)
    with Pair show ?thesis
      by (cases "error_message e")
         (simp_all add: write_item_def dynamoDB_send_def settle_def put_command_def)
  qed
qed

lemma write_items_eq:
  "fst (write_items table client items w) =
     map2 settle items (put_answers table client items (store w))
   \<and> effects (snd (write_items table client items w)) =
       effects w @ map (put_command table) items"
proof (induction items arbitrary: w)
  case Nil
  show ?case by simp
next
  case (Cons item items)
  obtain r s' where c: "client (store w) (PutCommand table item) = (r, s')"
    by (cases "client (store w) (PutCommand table item)")
  let ?w1 = "\<lparr>store = s', effects = effects w @ [put_command table item]\<rparr>"
  from c have "write_item table client item w = (settle item r, ?w1)"
    by (simp add: write_item_eq)
  moreover obtain rs w2 where rec: "write_items table client items ?w1 = (rs, w2)"
    by (cases "write_items table client items ?w1")
  moreover from Cons [of ?w1] rec
  have "rs = map2 settle items (put_answers table client items s')"
    and "effects w2 = effects w @ put_command table item # map (put_command table) items"
    by simp_all
  ultimately show ?case using c by simp
qed

lemma length_put_answers [simp]: "length (put_answers table client items s) = length items"
  by (induction items arbitrary: s) (auto split: prod.split)

lemma rejected_answers_errors:
  assumes "rejects_with_errors client"
  shows "Inl e \<in> set (put_answers table client items s) \<Longrightarrow> \<exists>nm msg. e = Error nm msg"
proof (induction items arbitrary: s)
  case Nil
  then show ?case by simp
next
  case (Cons item items)
  obtain r s' where c: "client s (PutCommand table item) = (r, s')"
    by (cases "client s (PutCommand table item)")
  with Cons.prems have "r = Inl e \<or> Inl e \<in> set (put_answers table client items s')"
    by auto
  then show ?case
  proof
    assume "r = Inl e"
    with c have "client s (PutCommand table item) = (Inl e, s')" by simp
    with assms show ?thesis by (rule rejects_with_errorsD)
  next
    assume "Inl e \<in> set (put_answers table client items s')"
    then show ?thesis by (rule Cons.IH)
  qed
qed

lemma tally_settle:
  "successful (tally acc (settle item r)) = successful acc + (if isl r then 0 else 1)
   \<and> failed (tally acc (settle item r)) = failed acc + (if isl r then 1 else 0)
   \<and> length (errors (tally acc (settle item r))) = length (errors acc) + (if isl r then 1 else 0)
   \<and> (\<forall>nm msg. r = Inl (Error nm msg) \<longrightarrow>
         errors (tally acc (settle item r)) =
           errors acc @ [js_to_string (item_property item ''issueId'') @ '': '' @ msg])
   \<and> (\<not> isl r \<longrightarrow> errors (tally acc (settle item r)) = errors acc)"
proof (cases r)
  case (Inr resp)
  then show ?thesis by (simp add: settle_def)
next
  case (Inl e)
  then show ?thesis
    by (cases e) (simp_all add: settle_def TypeError_def)
qed

lemma foldl_tally_answers:
  "length answers = length items \<Longrightarrow>
   successful (foldl tally acc (map2 settle items answers)) =
       successful acc + int (length (filter (\<lambda>r. \<not> isl r) answers))
   \<and> failed (foldl tally acc (map2 settle items answers)) =
       failed acc + int (length (filter isl answers))
   \<and> length (errors (foldl tally acc (map2 settle items answers))) =
       length (errors acc) + length (filter isl answers)
   \<and> ((\<forall>e. Inl e \<in> set answers \<longrightarrow> (\<exists>nm msg. e = Error nm msg)) \<longrightarrow>
        errors (foldl tally acc (map2 settle items answers)) =
          errors acc @ tagged_errors (zip items answers))"
proof (induction items arbitrary: acc answers)
  case Nil
  then show ?case by simp
next
  case (Cons item items)
  from Cons.prems obtain r rest where a: "answers = r # rest" and l: "length rest = length items"
    by (cases answers) auto
  note ih = Cons.IH [OF l, of "tally acc (settle item r)"]
  note t = tally_settle [of acc item r]
  show ?case
  proof (cases r)
    case (Inr resp)
    with ih t a show ?thesis by simp
  next
    case (Inl e)
    show ?thesis
    proof (intro conjI impI)
      show "successful (foldl tally acc (map2 settle (item # items) answers)) =
          successful acc + int (length (filter (\<lambda>r. \<not> isl r) answers))"
        using ih t a Inl by simp
      show "failed (foldl tally acc (map2 settle (item # items) answers)) =
          failed acc + int (length (filter isl answers))"
        using ih t a Inl by simp
      show "length (errors (foldl tally acc (map2 settle (item # items) answers))) =
          length (errors acc) + length (filter isl answers)"
        using ih t a Inl by simp
      assume h: "\<forall>e. Inl e \<in> set answers \<longrightarrow> (\<exists>nm msg. e = Error nm msg)"
      with a Inl obtain nm msg where e: "e = Error nm msg" by auto
      from h a have "\<forall>e. Inl e \<in> set rest \<longrightarrow> (\<exists>nm msg. e = Error nm msg)" by simp
      with ih have "errors (foldl tally (tally acc (settle item r)) (map2 settle items rest)) =
          errors (tally acc (settle item r)) @ tagged_errors (zip items rest)" by blast
      with t a Inl e show "errors (foldl tally acc (map2 settle (item # items) answers)) =
          errors acc @ tagged_errors (zip (item # items) answers)"
        by simp
    qed
  qed
qed

lemma foldl_tally_errors:
  assumes "length answers = length items"
    and "\<And>e. Inl e \<in> set answers \<Longrightarrow> \<exists>nm msg. e = Error nm msg"
  shows "errors (foldl tally acc (map2 settle items answers)) =
           errors acc @ tagged_errors (zip items answers)"
proof -
  from assms(2) have "\<forall>e. Inl e \<in> set answers \<longrightarrow> (\<exists>nm msg. e = Error nm msg)"
    by simp
  with foldl_tally_answers [OF assms(1), of acc] show ?thesis
    by simp
qed

text \<open>
  Claim C6. For every list of records given to the per-item writer, every client and every
  world:
  \<^item> there is exactly one WriteResult for each input record, in input order, and the
    WriteResult of a record is determined by that record and the answer to its own put
    alone (\<open>settle\<close>);
  \<^item> every record is submitted as one single-item put, in input order, whatever the
    answers to the other records are;
  \<^item> \<open>successful\<close> is the number of puts that resolved, \<open>failed\<close> the number that
    rejected, their sum is the number of records, and there is one error entry for each
    failure;
  \<^item> with a client whose failing requests reject with Error objects, the error entries
    are, in input order, the \<^verbatim>\<open>issueId\<close> of each failed record followed by the message of
    its exception.
  The writer returns its result in every case: an exception of a put never leaves it.
\<close>

theorem fallback_writer_accounts_for_every_record:
  "fst (write_items table client items w) =
       map2 settle items (put_answers table client items (store w))
   \<and> length (put_answers table client items (store w)) = length items
   \<and> effects (snd (fallbackIndividualWrite table client items w)) =
       effects w @ map (put_command table) items
   \<and> successful (fst (fallbackIndividualWrite table client items w)) =
       int (length (filter (\<lambda>r. \<not> isl r) (put_answers table client items (store w))))
   \<and> failed (fst (fallbackIndividualWrite table client items w)) =
       int (length (filter isl (put_answers table client items (store w))))
   \<and> successful (fst (fallbackIndividualWrite table client items w))
       + failed (fst (fallbackIndividualWrite table client items w)) = int (length items)
   \<and> int (length (errors (fst (fallbackIndividualWrite table client items w)))) =
       failed (fst (fallbackIndividualWrite table client items w))
   \<and> (rejects_with_errors client \<longrightarrow>
        errors (fst (fallbackIndividualWrite table client items w)) =
          tagged_errors (zip items (put_answers table client items (store w))))"
proof -
  let ?answers = "put_answers table client items (store w)"
  let ?zero = "\<lparr>successful = 0, failed = 0, errors = []\<rparr>"
  obtain rs w' where wi: "write_items table client items w = (rs, w')"
    by (cases "write_items table client items w")
  with write_items_eq [of table client items w]
  have rs: "rs = map2 settle items ?answers"
    and ef: "effects w' = effects w @ map (put_command table) items"
    by simp_all
  from wi have fw: "fallbackIndividualWrite table client items w = (foldl tally ?zero rs, w')"
    by (simp add: fallbackIndividualWrite_def)
  have len: "length ?answers = length items" by simp
  note f = foldl_tally_answers [OF len, of ?zero]
  have parts: "length (filter (\<lambda>r. \<not> isl r) ?answers) + length (filter isl ?answers)
      = length items"
    using sum_length_filter_compl [of "\<lambda>r. \<not> isl r" ?answers] by simp
  show ?thesis
  proof (intro conjI impI)
    show "fst (write_items table client items w) = map2 settle items ?answers"
      using wi rs by simp
    show "length ?answers = length items" by (rule len)
    show "effects (snd (fallbackIndividualWrite table client items w)) =
        effects w @ map (put_command table) items"
      using fw ef by simp
    show "successful (fst (fallbackIndividualWrite table client items w)) =
        int (length (filter (\<lambda>r. \<not> isl r) ?answers))"
      using fw rs f by simp
    show "failed (fst (fallbackIndividualWrite table client items w)) =
        int (length (filter isl ?answers))"
      using fw rs f by simp
    show "successful (fst (fallbackIndividualWrite table client items w))
        + failed (fst (fallbackIndividualWrite table client items w)) = int (length items)"
      using fw rs f parts by simp
    show "int (length (errors (fst (fallbackIndividualWrite table client items w)))) =
        failed (fst (fallbackIndividualWrite table client items w))"
      using fw rs f by simp
    assume "rejects_with_errors client"
    then have "errors (foldl tally ?zero (map2 settle items ?answers)) =
        errors ?zero @ tagged_errors (zip items ?answers)"
      by (intro foldl_tally_errors [OF len] rejected_answers_errors)
    then show "errors (fst (fallbackIndividualWrite table client items w)) =
        tagged_errors (zip items ?answers)"
      using fw rs by simp
  qed
qed

text \<open>
  An instance: five records, the second and the fourth put fail; three records succeed,
  two fail, and both failures carry the identifier of their record.
\<close>

theorem fallback_writer_accounts_for_every_record_witness:
  "fst (fallbackIndividualWrite ''issues'' second_and_fourth_fail_client
          [issue ''A-1'', issue ''A-2'', issue ''A-3'', issue ''A-4'', issue ''A-5'']
          \<lparr>store = 0, effects = []\<rparr>)
     = \<lparr>successful = 3, failed = 2,
        errors = [''A-2: write failed'', ''A-4: write failed'']\<rparr>"
proof -
  let ?items = "[issue ''A-1'', issue ''A-2'', issue ''A-3'', issue ''A-4'', issue ''A-5'']"
  let ?w = "\<lparr>store = 0 :: nat, effects = [] :: item effect list\<rparr>"
  let ?r = "fst (fallbackIndividualWrite ''issues'' second_and_fourth_fail_client ?items ?w)"
  have h: "rejects_with_errors second_and_fourth_fail_client"
    by (simp add: rejects_with_errors_def second_and_fourth_fail_client_def)
  have a: "put_answers ''issues'' second_and_fourth_fail_client ?items (store ?w) =
      [Inr \<lparr>UnprocessedItems = None\<rparr>, Inl (Error ''Error'' ''write failed''),
       Inr \<lparr>UnprocessedItems = None\<rparr>, Inl (Error ''Error'' ''write failed''),
       Inr \<lparr>UnprocessedItems = None\<rparr>]"
    by (simp add: second_and_fourth_fail_client_def)
  note t = fallback_writer_accounts_for_every_record
    [of "''issues''" second_and_fourth_fail_client ?items ?w]
  have "successful ?r = 3"
    using t [THEN conjunct2, THEN conjunct2, THEN conjunct2, THEN conjunct1]
    unfolding a by simp
  moreover have "failed ?r = 2"
    using t [THEN conjunct2, THEN conjunct2, THEN conjunct2, THEN conjunct2, THEN conjunct1]
    unfolding a by simp
  moreover have "errors ?r = [''A-2: write failed'', ''A-4: write failed'']"
    using t [THEN conjunct2, THEN conjunct2, THEN conjunct2, THEN conjunct2, THEN conjunct2,
             THEN conjunct2, THEN conjunct2, THEN mp, OF h]
    unfolding a by (simp add: issue_def item_property_def)
  ultimately show ?thesis by (intro outcome.equality) simp_all
qed

section \<open>The handler\<close>

subsection \<open>Auxiliary facts\<close>

lemma get_property_raises: "get_property v p = Inl e \<Longrightarrow> \<exists>nm msg. e = Error nm msg"
  by (cases v) (auto simp: TypeError_def)

lemma parseJiraContent_raises: "parseJiraContent v = Inl e \<Longrightarrow> \<exists>nm msg. e = Error nm msg"
  by (cases v) (auto simp: TypeError_def)

lemma createDynamoItem_raises:
  "createDynamoItem now_iso now_ms message parsedFields = Inl e \<Longrightarrow> \<exists>nm msg. e = Error nm msg"
  by (auto simp: createDynamoItem_def Let_def split: sum.splits dest: get_property_raises)

lemma parse_record_raises:
  "parse_record JSON_parse now_iso now_ms r = Inl e \<Longrightarrow> \<exists>nm msg. e = Error nm msg"
  by (auto simp: parse_record_def SyntaxError_def split: sum.splits
      dest: get_property_raises parseJiraContent_raises createDynamoItem_raises)

lemma parse_records_eq:
  "parse_records JSON_parse clock k records items parseErrs =
     Inr (items @ parsed_items (parse_outcomes JSON_parse clock k records),
          parseErrs @ parse_failures (zip records (parse_outcomes JSON_parse clock k records)))"
proof (induction records arbitrary: k items parseErrs)
  case Nil
  show ?case by simp
next
  case (Cons r rs)
  show ?case
  proof (cases "parse_record JSON_parse (fst (clock k)) (snd (clock k)) r")
    case (Inr item)
    then show ?thesis by (simp add: Cons)
  next
    case (Inl e)
    with parse_record_raises obtain nm msg where "e = Error nm msg" by blast
    with Inl show ?thesis by (simp add: Cons)
  qed
qed

lemma length_parse_outcomes [simp]:
  "length (parse_outcomes JSON_parse clock k records) = length records"
  by (induction records arbitrary: k) auto

lemma parse_outcomes_accounted:
  "length (parsed_items (parse_outcomes JSON_parse clock k records))
   + length (parse_failures (zip records (parse_outcomes JSON_parse clock k records)))
   = length records"
proof (induction records arbitrary: k)
  case Nil
  show ?case by simp
next
  case (Cons r rs)
  show ?case
  proof (cases "parse_record JSON_parse (fst (clock k)) (snd (clock k)) r")
    case (Inr item)
    then show ?thesis using Cons [of "k + 1"] by simp
  next
    case (Inl e)
    with parse_record_raises obtain nm msg where "e = Error nm msg" by blast
    with Inl show ?thesis using Cons [of "k + 1"] by simp
  qed
qed

lemma parse_outcomes_invalid_JSON:
  assumes "\<forall>r \<in> set records. isl (JSON_parse (body r))"
  shows "parsed_items (parse_outcomes JSON_parse clock k records) = []
       \<and> parse_failures (zip records (parse_outcomes JSON_parse clock k records)) =
           map (\<lambda>r. ParseError (messageId r) (projl (JSON_parse (body r)))) records"
  using assms
proof (induction records arbitrary: k)
  case Nil
  show ?case by simp
next
  case (Cons r rs)
  then obtain msg where m: "JSON_parse (body r) = Inl msg"
    by (cases "JSON_parse (body r)") auto
  then have "parse_record JSON_parse (fst (clock k)) (snd (clock k)) r = Inl (Error ''SyntaxError'' msg)"
    by (simp add: parse_record_def SyntaxError_def)
  with Cons m show ?case by simp
qed

lemma handler_try_no_items:
  assumes "built_items JSON_parse clock records = []"
  shows "handler_try JSON_parse clock table client records w =
           (Inr (Response 400 (NoValidItems ''No valid items to process''
                   (recorded_parse_errors JSON_parse clock records))), w)"
  using assms
  by (simp add: handler_try_def parse_records_eq built_items_def recorded_parse_errors_def)

lemma handler_of_response:
  "handler_try JSON_parse clock table client records w = (Inr resp, w') \<Longrightarrow>
     handler JSON_parse clock table client (SqsEvent (Some records)) w = (Inr resp, w')"
  by (simp add: handler_def)

lemma slice_from_last:
  "0 < k \<Longrightarrow> slice_from xs (- k) = drop (length xs - nat k) xs"
  by (simp add: slice_from_def slice_def slice_index_def Let_def nat_diff_distrib' max_def)

lemma handler_try_items:
  assumes "built_items JSON_parse clock records \<noteq> []"
  shows "handler_try JSON_parse clock table client records w =
     (case batchWriteToDynamoDB table client (built_items JSON_parse clock records) w of
        (Inl e, w1) \<Rightarrow> (Inl e, w1)
      | (Inr batchRes, w1) \<Rightarrow>
          (if 0 < failed batchRes then
             (Inr (Response 200 (ProcessingComplete ''Processing complete''
                \<lparr>totalProcessed = length (built_items JSON_parse clock records),
                 batchResults = batchRes,
                 fallbackResults = Some (fst (fallbackIndividualWrite table client
                     (slice_from (built_items JSON_parse clock records) (- failed batchRes)) w1)),
                 parseErrors = (if recorded_parse_errors JSON_parse clock records = [] then None
                                else Some (recorded_parse_errors JSON_parse clock records))\<rparr>)),
              snd (fallbackIndividualWrite table client
                     (slice_from (built_items JSON_parse clock records) (- failed batchRes)) w1))
           else
             (Inr (Response 200 (ProcessingComplete ''Processing complete''
                \<lparr>totalProcessed = length (built_items JSON_parse clock records),
                 batchResults = batchRes,
                 fallbackResults = None,
                 parseErrors = (if recorded_parse_errors JSON_parse clock records = [] then None
                                else Some (recorded_parse_errors JSON_parse clock records))\<rparr>)),
              w1)))"
proof -
  obtain r w1 where b:
    "batchWriteToDynamoDB table client (built_items JSON_parse clock records) w = (r, w1)"
    by (cases "batchWriteToDynamoDB table client (built_items JSON_parse clock records) w")
  show ?thesis
  proof (cases r)
    case (Inl e)
    with b assms show ?thesis
      by (simp add: handler_try_def parse_records_eq built_items_def [symmetric]
          recorded_parse_errors_def [symmetric])
  next
    case (Inr batchRes)
    with b assms show ?thesis
      by (simp add: handler_try_def parse_records_eq built_items_def [symmetric]
          recorded_parse_errors_def [symmetric] Let_def split: prod.split)
  qed
qed


lemma fallback_effects:
  "effects (snd (fallbackIndividualWrite table client items w)) =
     effects w @ map (put_command table) items"
  using write_items_eq [of table client items w]
  by (cases "write_items table client items w") (simp add: fallbackIndividualWrite_def)

lemma parse_record_toy:
  "parse_record toy_JSON_parse now_iso now_ms (SqsRecord mid (CHR ''{'' # content)) =
     Inr (base_fields now_iso now_ms
            [(''title'', Str ''Issue updated''), (''content'', Str content)]
            (parse_content content)
          ++ additional_fields (parse_content content))"
  by (simp add: parse_record_def toy_JSON_parse_def createDynamoItem_Obj)


lemma first_unprocessed_batch:
  "batchWriteToDynamoDB table first_of_batch_unprocessed_client [a, b, c]
       \<lparr>store = 0, effects = []\<rparr> =
     (Inr \<lparr>successful = 2, failed = 1, errors = [''1 items failed after retries'']\<rparr>,
      \<lparr>store = 4,
       effects = [Sent (batch_command table [a, b, c]),
                  Waited 100, Resent (BatchWriteCommand table [PutRequest a]),
                  Waited 200, Resent (BatchWriteCommand table [PutRequest a]),
                  Waited 400, Resent (BatchWriteCommand table [PutRequest a])]\<rparr>)"
  by (simp add: batchWriteToDynamoDB_def batch_loop_step batch_loop_stop write_chunk_def
      chunk_try_def retry_loop_step retry_loop_stop dynamoDB_send_def
      first_of_batch_unprocessed_client_def unprocessed_of_def batch_command_def
      MAX_BATCH_SIZE_def MAX_RETRIES_def nat_to_string.simps digit_char_def)

lemma single_put_accepted:
  "fallbackIndividualWrite table first_of_batch_unprocessed_client [c] w =
     (\<lparr>successful = 1, failed = 0, errors = []\<rparr>,
      \<lparr>store = store w + 1, effects = effects w @ [Sent (PutCommand table c)]\<rparr>)"
  by (simp add: fallbackIndividualWrite_def write_item_def dynamoDB_send_def
      first_of_batch_unprocessed_client_def)

subsection \<open>Fallback on the tail of the records (claim C4)\<close>

text \<open>
  Claim C4. For every invocation in which records were built and the batch writer returns
  an outcome with \<open>failed = K\<close>:
  \<^item> if \<open>K > 0\<close>, the per-item writer runs on exactly the last \<open>K\<close> built records (all of
    them when \<open>K\<close> exceeds their number), whichever records the store rejected: the
    puts it sends are those of this tail slice, in order, and its result is the
    \<^verbatim>\<open>fallbackResults\<close> of the response;
  \<^item> if \<open>K = 0\<close>, the per-item writer does not run: the world is the one the batch
    writer left, and \<^verbatim>\<open>fallbackResults\<close> is \<^verbatim>\<open>null\<close>.
\<close>

theorem fallback_on_tail_slice:
  "\<forall>br w1.
     built_items JSON_parse clock records \<noteq> []
     \<and> batchWriteToDynamoDB table client (built_items JSON_parse clock records) w = (Inr br, w1)
     \<longrightarrow>
     (let items = built_items JSON_parse clock records;
          tail = drop (length items - nat (failed br)) items;
          perrs = recorded_parse_errors JSON_parse clock records
      in (0 < failed br \<longrightarrow>
            handler JSON_parse clock table client (SqsEvent (Some records)) w =
              (Inr (Response 200 (ProcessingComplete ''Processing complete''
                 \<lparr>totalProcessed = length items,
                  batchResults = br,
                  fallbackResults = Some (fst (fallbackIndividualWrite table client tail w1)),
                  parseErrors = (if perrs = [] then None else Some perrs)\<rparr>)),
               snd (fallbackIndividualWrite table client tail w1))
            \<and> effects (snd (fallbackIndividualWrite table client tail w1)) =
                effects w1 @ map (put_command table) tail)
       \<and> (failed br = 0 \<longrightarrow>
            handler JSON_parse clock table client (SqsEvent (Some records)) w =
              (Inr (Response 200 (ProcessingComplete ''Processing complete''
                 \<lparr>totalProcessed = length items,
                  batchResults = br,
                  fallbackResults = None,
                  parseErrors = (if perrs = [] then None else Some perrs)\<rparr>)),
               w1)))"
proof (intro allI impI)
  fix br and w1 :: "('a, item) world"
  assume a: "built_items JSON_parse clock records \<noteq> []
     \<and> batchWriteToDynamoDB table client (built_items JSON_parse clock records) w = (Inr br, w1)"
  then have ne: "built_items JSON_parse clock records \<noteq> []"
    and b: "batchWriteToDynamoDB table client (built_items JSON_parse clock records) w = (Inr br, w1)"
    by simp_all
  note t = handler_try_items [OF ne, of table client w, unfolded b]
  show "let items = built_items JSON_parse clock records;
          tail = drop (length items - nat (failed br)) items;
          perrs = recorded_parse_errors JSON_parse clock records
      in (0 < failed br \<longrightarrow>
            handler JSON_parse clock table client (SqsEvent (Some records)) w =
              (Inr (Response 200 (ProcessingComplete ''Processing complete''
                 \<lparr>totalProcessed = length items,
                  batchResults = br,
                  fallbackResults = Some (fst (fallbackIndividualWrite table client tail w1)),
                  parseErrors = (if perrs = [] then None else Some perrs)\<rparr>)),
               snd (fallbackIndividualWrite table client tail w1))
            \<and> effects (snd (fallbackIndividualWrite table client tail w1)) =
                effects w1 @ map (put_command table) tail)
       \<and> (failed br = 0 \<longrightarrow>
            handler JSON_parse clock table client (SqsEvent (Some records)) w =
              (Inr (Response 200 (ProcessingComplete ''Processing complete''
                 \<lparr>totalProcessed = length items,
                  batchResults = br,
                  fallbackResults = None,
                  parseErrors = (if perrs = [] then None else Some perrs)\<rparr>)),
               w1))"
    unfolding Let_def
  proof (intro conjI impI)
    assume p: "0 < failed br"
    with t show "handler JSON_parse clock table client (SqsEvent (Some records)) w =
              (Inr (Response 200 (ProcessingComplete ''Processing complete''
                 \<lparr>totalProcessed = length (built_items JSON_parse clock records),
                  batchResults = br,
                  fallbackResults = Some (fst (fallbackIndividualWrite table client
                    (drop (length (built_items JSON_parse clock records) - nat (failed br))
                       (built_items JSON_parse clock records)) w1)),
                  parseErrors = (if recorded_parse_errors JSON_parse clock records = [] then None
                                 else Some (recorded_parse_errors JSON_parse clock records))\<rparr>)),
               snd (fallbackIndividualWrite table client
                    (drop (length (built_items JSON_parse clock records) - nat (failed br))
                       (built_items JSON_parse clock records)) w1))"
      by (intro handler_of_response) (simp add: slice_from_last)
    show "effects (snd (fallbackIndividualWrite table client
                    (drop (length (built_items JSON_parse clock records) - nat (failed br))
                       (built_items JSON_parse clock records)) w1)) =
                effects w1 @ map (put_command table)
                    (drop (length (built_items JSON_parse clock records) - nat (failed br))
                       (built_items JSON_parse clock records))"
      by (rule fallback_effects)
  next
    assume "failed br = 0"
    with t show "handler JSON_parse clock table client (SqsEvent (Some records)) w =
              (Inr (Response 200 (ProcessingComplete ''Processing complete''
                 \<lparr>totalProcessed = length (built_items JSON_parse clock records),
                  batchResults = br,
                  fallbackResults = None,
                  parseErrors = (if recorded_parse_errors JSON_parse clock records = [] then None
                                 else Some (recorded_parse_errors JSON_parse clock records))\<rparr>)),
               w1)"
      by (intro handler_of_response) simp
  qed
qed

text \<open>
  An instance: of three records the store keeps rejecting the first one, and the per-item
  writer is given the third one.
\<close>

theorem fallback_on_tail_slice_witness:
  "fst (handler toy_JSON_parse fixed_clock ''issues'' first_of_batch_unprocessed_client
          (SqsEvent (Some [SqsRecord ''m-1'' ''{Key: A-1'', SqsRecord ''m-2'' ''{Key: B-2'',
                           SqsRecord ''m-3'' ''{Key: C-3'']))
          \<lparr>store = 0, effects = []\<rparr>)
     = Inr (Response 200 (ProcessingComplete ''Processing complete''
         \<lparr>totalProcessed = 3,
          batchResults = \<lparr>successful = 2, failed = 1,
                           errors = [''1 items failed after retries'']\<rparr>,
          fallbackResults = Some \<lparr>successful = 1, failed = 0, errors = []\<rparr>,
          parseErrors = None\<rparr>))
   \<and> put_issueIds (effects (snd
         (handler toy_JSON_parse fixed_clock ''issues'' first_of_batch_unprocessed_client
            (SqsEvent (Some [SqsRecord ''m-1'' ''{Key: A-1'', SqsRecord ''m-2'' ''{Key: B-2'',
                             SqsRecord ''m-3'' ''{Key: C-3'']))
            \<lparr>store = 0, effects = []\<rparr>)))
     = [Str ''C-3'']"
proof -
  let ?records = "[SqsRecord ''m-1'' ''{Key: A-1'', SqsRecord ''m-2'' ''{Key: B-2'',
           SqsRecord ''m-3'' ''{Key: C-3'']"
  let ?w = "\<lparr>store = 0 :: nat, effects = [] :: item effect list\<rparr>"
  let ?c = "base_fields ''2024-05-01T10:00:00.000Z'' 1714557600000
              [(''title'', Str ''Issue updated''), (''content'', Str ''Key: C-3'')]
              (parse_content ''Key: C-3'')
            ++ additional_fields (parse_content ''Key: C-3'')"
  have "\<exists>a b. built_items toy_JSON_parse fixed_clock ?records = [a, b, ?c]"
    by (simp add: built_items_def parse_record_toy fixed_clock_def)
  moreover have "item_property ?c ''issueId'' = Str ''C-3''"
    by (simp add: item_property_def map_add_def additional_fields_def base_fields_def
        built_issueId_def mapped_names_def evaluate_parser)
  moreover have "recorded_parse_errors toy_JSON_parse fixed_clock ?records = []"
    by (simp add: recorded_parse_errors_def parse_record_toy)
  ultimately obtain a b c where
    items: "built_items toy_JSON_parse fixed_clock ?records = [a, b, c]"
    and c: "item_property c ''issueId'' = Str ''C-3''"
    and perrs: "recorded_parse_errors toy_JSON_parse fixed_clock ?records = []"
    by blast
  let ?w1 = "\<lparr>store = 4 :: nat,
       effects = [Sent (batch_command ''issues'' [a, b, c]),
                  Waited 100, Resent (BatchWriteCommand ''issues'' [PutRequest a]),
                  Waited 200, Resent (BatchWriteCommand ''issues'' [PutRequest a]),
                  Waited 400, Resent (BatchWriteCommand ''issues'' [PutRequest a])]\<rparr>"
  let ?br = "\<lparr>successful = 2, failed = 1, errors = [''1 items failed after retries'']\<rparr>"
  have h: "built_items toy_JSON_parse fixed_clock ?records \<noteq> []
     \<and> batchWriteToDynamoDB ''issues'' first_of_batch_unprocessed_client
           (built_items toy_JSON_parse fixed_clock ?records) ?w = (Inr ?br, ?w1)"
    unfolding items first_unprocessed_batch by simp
  from fallback_on_tail_slice
    [of toy_JSON_parse fixed_clock ?records "''issues''" first_of_batch_unprocessed_client ?w,
     rule_format, OF h]
  have "handler toy_JSON_parse fixed_clock ''issues'' first_of_batch_unprocessed_client
          (SqsEvent (Some ?records)) ?w =
      (Inr (Response 200 (ProcessingComplete ''Processing complete''
         \<lparr>totalProcessed = 3,
          batchResults = ?br,
          fallbackResults = Some \<lparr>successful = 1, failed = 0, errors = []\<rparr>,
          parseErrors = None\<rparr>)),
       \<lparr>store = 5, effects = effects ?w1 @ [Sent (PutCommand ''issues'' c)]\<rparr>)"
    unfolding items perrs Let_def by (simp add: single_put_accepted)
  then show ?thesis
    by (simp add: c batch_command_def)
qed

subsection \<open>No valid record (claim C9)\<close>

text \<open>
  Claim C9. For every list of records of an event, every \<^verbatim>\<open>JSON.parse\<close>, clock, client
  and world:
  \<^item> the loop over the records ends normally, with the items of the records that were
    built and one parse error for each other record, each record being treated on its
    own: a record that raises does not stop the loop, and every record is accounted for;
  \<^item> when no record yields an item, the handler returns the status code 400 with these
    parse errors, one for each record, and the world is unchanged: no command is sent to
    the store and nothing is waited for;
  \<^item> in particular, when every body is invalid JSON, the parse errors are the messages
    of the syntax errors with the \<^verbatim>\<open>messageId\<close> of their records, in order.
\<close>

theorem no_valid_record_gives_400:
  "parse_records JSON_parse clock 0 records [] [] =
       Inr (built_items JSON_parse clock records, recorded_parse_errors JSON_parse clock records)
   \<and> length (built_items JSON_parse clock records)
       + length (recorded_parse_errors JSON_parse clock records) = length records
   \<and> (built_items JSON_parse clock records = [] \<longrightarrow>
         handler JSON_parse clock table client (SqsEvent (Some records)) w =
           (Inr (Response 400 (NoValidItems ''No valid items to process''
                   (recorded_parse_errors JSON_parse clock records))), w)
         \<and> length (recorded_parse_errors JSON_parse clock records) = length records)
   \<and> ((\<forall>r \<in> set records. isl (JSON_parse (body r))) \<longrightarrow>
         handler JSON_parse clock table client (SqsEvent (Some records)) w =
           (Inr (Response 400 (NoValidItems ''No valid items to process''
                   (map (\<lambda>r. ParseError (messageId r) (projl (JSON_parse (body r)))) records))),
            w))"
proof (intro conjI impI)
  show "parse_records JSON_parse clock 0 records [] [] =
       Inr (built_items JSON_parse clock records, recorded_parse_errors JSON_parse clock records)"
    by (simp add: parse_records_eq built_items_def recorded_parse_errors_def)
  show acc: "length (built_items JSON_parse clock records)
       + length (recorded_parse_errors JSON_parse clock records) = length records"
    unfolding built_items_def recorded_parse_errors_def by (rule parse_outcomes_accounted)
  {
    assume e: "built_items JSON_parse clock records = []"
    from handler_try_no_items [OF e, of table client w]
    show "handler JSON_parse clock table client (SqsEvent (Some records)) w =
           (Inr (Response 400 (NoValidItems ''No valid items to process''
                   (recorded_parse_errors JSON_parse clock records))), w)"
      by (rule handler_of_response)
    from acc e show "length (recorded_parse_errors JSON_parse clock records) = length records"
      by simp
  }
  assume "\<forall>r \<in> set records. isl (JSON_parse (body r))"
  from parse_outcomes_invalid_JSON [OF this, of clock 0]
  have e: "built_items JSON_parse clock records = []"
    and p: "recorded_parse_errors JSON_parse clock records =
        map (\<lambda>r. ParseError (messageId r) (projl (JSON_parse (body r)))) records"
    by (simp_all add: built_items_def recorded_parse_errors_def)
  from handler_try_no_items [OF e, of table client w]
  show "handler JSON_parse clock table client (SqsEvent (Some records)) w =
           (Inr (Response 400 (NoValidItems ''No valid items to process''
                   (map (\<lambda>r. ParseError (messageId r) (projl (JSON_parse (body r)))) records))),
            w)"
    unfolding p by (rule handler_of_response)
qed

text \<open>An instance: one record whose body is not JSON.\<close>

theorem no_valid_record_gives_400_witness:
  "handler toy_JSON_parse fixed_clock ''issues'' accepting_client
       (SqsEvent (Some [SqsRecord ''m-1'' ''not json''])) \<lparr>store = 0, effects = []\<rparr>
   = (Inr (Response 400 (NoValidItems ''No valid items to process''
            [ParseError ''m-1'' ''Unexpected token in JSON at position 0''])),
      \<lparr>store = 0, effects = []\<rparr>)"
proof -
  have h: "\<forall>r \<in> set [SqsRecord ''m-1'' ''not json'']. isl (toy_JSON_parse (body r))"
    by (simp add: toy_JSON_parse_def)
  from no_valid_record_gives_400
    [of toy_JSON_parse fixed_clock "[SqsRecord ''m-1'' ''not json'']" "''issues''"
        accepting_client "\<lparr>store = 0, effects = []\<rparr>",
     THEN conjunct2, THEN conjunct2, THEN conjunct2, THEN mp, OF h]
  show ?thesis by (simp add: toy_JSON_parse_def)
qed

subsection \<open>The top-level catch (claim C10)\<close>




end
